theory Spec2Isabelle
  imports Main "HOL-Library.Char_ord" "HOL-Library.List_Lexorder"
begin

section \<open>Python strings\<close>

text \<open>
  A Python \<open>str\<close> is modelled as a \<^typ>\<open>string\<close>: a list of characters read as code
  points below 256. The methods used by \<open>auto_readme.py\<close> are written out below with
  their Python names.
\<close>

definition startswith :: "string \<Rightarrow> string \<Rightarrow> bool" where
  "startswith s p = (take (length p) s = p)"

definition endswith :: "string \<Rightarrow> string \<Rightarrow> bool" where
  "endswith s p = (length p \<le> length s \<and> drop (length s - length p) s = p)"

text \<open>\<open>contains s sub\<close> is Python's \<open>sub in s\<close>.\<close>

fun contains :: "string \<Rightarrow> string \<Rightarrow> bool" where
  "contains [] sub = (sub = [])"
| "contains (c # cs) sub = (startswith (c # cs) sub \<or> contains cs sub)"

text \<open>\<open>py_split sep s\<close> is \<open>s.split(sep)\<close> for a one-character separator.\<close>

fun py_split :: "char \<Rightarrow> string \<Rightarrow> string list" where
  "py_split sep [] = [[]]"
| "py_split sep (c # cs) =
     (if c = sep then [] # py_split sep cs
      else (case py_split sep cs of
              [] \<Rightarrow> [[c]]
            | w # ws \<Rightarrow> (c # w) # ws))"

text \<open>\<open>py_join sep xs\<close> is \<open>sep.join(xs)\<close>.\<close>

fun py_join :: "string \<Rightarrow> string list \<Rightarrow> string" where
  "py_join sep [] = []"
| "py_join sep [x] = x"
| "py_join sep (x # y # ys) = x @ sep @ py_join sep (y # ys)"

text \<open>\<open>str.isspace\<close> on one code point below 256.\<close>

definition is_space :: "char \<Rightarrow> bool" where
  "is_space c = (let n = (of_char c :: nat) in
     (9 \<le> n \<and> n \<le> 13) \<or> (28 \<le> n \<and> n \<le> 32) \<or> n = 133 \<or> n = 160)"

definition strip :: "string \<Rightarrow> string" where
  "strip s = rev (dropWhile is_space (rev (dropWhile is_space s)))"

text \<open>\<open>s.lstrip(chars)\<close> and \<open>s.rstrip(chars)\<close>: \<open>chars\<close> is a set of characters.\<close>

definition lstrip :: "string \<Rightarrow> string \<Rightarrow> string" where
  "lstrip s chars = dropWhile (\<lambda>c. c \<in> set chars) s"

definition rstrip :: "string \<Rightarrow> string \<Rightarrow> string" where
  "rstrip s chars = rev (dropWhile (\<lambda>c. c \<in> set chars) (rev s))"

definition lower_char :: "char \<Rightarrow> char" where
  "lower_char c = (let n = (of_char c :: nat) in
     if (65 \<le> n \<and> n \<le> 90) \<or> (192 \<le> n \<and> n \<le> 222 \<and> n \<noteq> 215)
     then char_of (n + 32) else c)"

definition lower :: "string \<Rightarrow> string" where
  "lower s = map lower_char s"

text \<open>The slice \<open>s[i:j]\<close> for \<open>0 \<le> i\<close> and \<open>0 \<le> j\<close>.\<close>

definition slice :: "string \<Rightarrow> nat \<Rightarrow> nat \<Rightarrow> string" where
  "slice s i j = take (j - i) (drop i s)"

section \<open>Errors\<close>

text \<open>The exceptions that the modelled code paths can raise.\<close>

datatype py_error =
    ValueError
  | FileNotFoundError
  | NotADirectoryError
  | IsADirectoryError
  | JSONDecodeError
  | KeyError
  | TypeError
  | CollaboratorError

section \<open>posixpath\<close>

text \<open>
  \<open>os.path\<close> on a POSIX system. The current working directory, which \<open>abspath\<close> reads
  with \<open>os.getcwd()\<close>, is a parameter.
\<close>

definition isabs :: "string \<Rightarrow> bool" where
  "isabs s = startswith s ''/''"

definition join :: "string \<Rightarrow> string \<Rightarrow> string" where
  "join a b =
     (if startswith b ''/'' then b
      else if a = [] \<or> endswith a ''/'' then a @ b
      else a @ ''/'' @ b)"

text \<open>
  The loop of \<open>normpath\<close> over the components; \<open>new_comps\<close> is the list built so far.
\<close>

fun normpath_comps :: "bool \<Rightarrow> string list \<Rightarrow> string list \<Rightarrow> string list" where
  "normpath_comps initial_slashes new_comps [] = new_comps"
| "normpath_comps initial_slashes new_comps (comp' # comps) =
     (if comp' = [] \<or> comp' = ''.'' then normpath_comps initial_slashes new_comps comps
      else if comp' \<noteq> ''..'' \<or> (\<not> initial_slashes \<and> new_comps = [])
              \<or> (new_comps \<noteq> [] \<and> last new_comps = ''..'')
      then normpath_comps initial_slashes (new_comps @ [comp']) comps
      else if new_comps \<noteq> [] then normpath_comps initial_slashes (butlast new_comps) comps
      else normpath_comps initial_slashes new_comps comps)"

definition normpath :: "string \<Rightarrow> string" where
  "normpath path =
     (if path = [] then ''.''
      else
        let initial_slashes =
              (if startswith path ''/''
               then (if startswith path ''//'' \<and> \<not> startswith path ''///'' then 2 else 1)
               else (0::nat));
            comps = normpath_comps (initial_slashes \<noteq> 0) [] (py_split CHR ''/'' path);
            p = replicate initial_slashes CHR ''/'' @ py_join ''/'' comps
        in if p = [] then ''.'' else p)"

definition abspath :: "string \<Rightarrow> string \<Rightarrow> string" where
  "abspath cwd path = normpath (if isabs path then path else join cwd path)"

text \<open>\<open>commonprefix\<close> of a two-element list of component lists.\<close>

fun commonprefix :: "string list \<Rightarrow> string list \<Rightarrow> string list" where
  "commonprefix (x # xs) (y # ys) = (if x = y then x # commonprefix xs ys else [])"
| "commonprefix _ _ = []"

definition relpath :: "string \<Rightarrow> string \<Rightarrow> string \<Rightarrow> py_error + string" where
  "relpath cwd path start =
     (if path = [] then Inl ValueError
      else
        let start_list = filter (\<lambda>x. x \<noteq> []) (py_split CHR ''/'' (abspath cwd start));
            path_list = filter (\<lambda>x. x \<noteq> []) (py_split CHR ''/'' (abspath cwd path));
            i = length (commonprefix start_list path_list);
            rel_list = replicate (length start_list - i) ''..'' @ drop i path_list
        in Inr (if rel_list = [] then ''.'' else py_join ''/'' rel_list))"

section \<open>fnmatch\<close>

text \<open>
  \<open>fnmatch.fnmatch(name, pat)\<close> on POSIX (\<open>normcase\<close> is the identity): the pattern is
  translated by \<open>fnmatch.translate\<close> and must match the whole name. The translation is
  kept as a list of tokens instead of a regular expression text: \<open>*\<close> matches any
  string, \<open>?\<close> one character, a bracket expression one character of a class, and every
  other character itself. Bracket expressions follow the translation that removes
  empty ranges instead of raising on them.
\<close>

datatype tok = Star | AnyChar | Never | Lit char | Cls bool "string list"

text \<open>
  The closing bracket of a bracket expression: \<open>p\<close> is the pattern after \<open>[\<close>, the
  result the index \<open>j\<close> of the closing \<open>]\<close> in \<open>p\<close>, or \<open>None\<close> when there is none (the
  \<open>[\<close> is then a literal).
\<close>

definition class_end :: "string \<Rightarrow> nat option" where
  "class_end p =
     (let j0 = (if startswith p ''!'' then 1 else 0);
          j1 = (if j0 < length p \<and> p ! j0 = CHR '']'' then j0 + 1 else j0);
          j = j1 + length (takeWhile (\<lambda>c. c \<noteq> CHR '']'') (drop j1 p))
      in if j \<ge> length p then None else Some j)"

text \<open>\<open>find_char c s k j\<close> is \<open>s.find(c, k, j)\<close> for \<open>j \<le> len(s)\<close>.\<close>

definition find_char :: "char \<Rightarrow> string \<Rightarrow> nat \<Rightarrow> nat \<Rightarrow> nat option" where
  "find_char c s k j =
     (let n = length (takeWhile (\<lambda>x. x \<noteq> c) (slice s k j))
      in if k + n < j \<and> k + n < length s then Some (k + n) else None)"

lemma find_char_bounds: "find_char c s k j = Some k' \<Longrightarrow> k \<le> k' \<and> k' < j"
  by (auto simp: find_char_def Let_def split: if_splits)

text \<open>
  The loop that cuts the text \<open>stuff\<close> between the brackets at the hyphens that form
  ranges (\<open>j\<close> is its length, \<open>i\<close> the start of the current chunk, \<open>k\<close> where the search
  for the next hyphen starts).
\<close>

function class_chunks :: "string \<Rightarrow> nat \<Rightarrow> nat \<Rightarrow> nat \<Rightarrow> string list \<Rightarrow> string list" where
  "class_chunks stuff i k j chunks =
     (case find_char CHR ''-'' stuff k j of
        None \<Rightarrow>
          (let chunk = slice stuff i j
           in if chunk \<noteq> [] then chunks @ [chunk]
              else (case rev chunks of
                      [] \<Rightarrow> [''-'']
                    | l # ls \<Rightarrow> rev ls @ [l @ ''-'']))
      | Some k' \<Rightarrow> class_chunks stuff (k' + 1) (k' + 3) j (chunks @ [slice stuff i k']))"
  by pat_completeness auto
termination
  by (relation "measure (\<lambda>(stuff, i, k, j, chunks). j - k)")
     (auto dest: find_char_bounds)

text \<open>
  Removal of the empty ranges, from the last chunk to the first: when the end of a
  chunk is greater than the start of the next, the two are merged without these two
  characters.
\<close>

fun merge_chunks :: "string list \<Rightarrow> string list" where
  "merge_chunks [] = []"
| "merge_chunks [c] = [c]"
| "merge_chunks (a # b # cs) =
     (case merge_chunks (b # cs) of
        [] \<Rightarrow> [a]
      | b' # bs \<Rightarrow>
          if a \<noteq> [] \<and> b' \<noteq> [] \<and> (of_char (last a) :: nat) > of_char (hd b')
          then (butlast a @ tl b') # bs
          else a # b' # bs)"

definition translate_class :: "string \<Rightarrow> tok" where
  "translate_class stuff =
     (let chunks =
            (if CHR ''-'' \<notin> set stuff then [stuff]
             else merge_chunks
                    (class_chunks stuff 0 (if startswith stuff ''!'' then 2 else 1)
                       (length stuff) []))
      in if chunks = [[]] then Never
         else if chunks = [''!''] then AnyChar
         else (case chunks of
                 (CHR ''!'' # c) # cs \<Rightarrow> Cls True (c # cs)
               | _ \<Rightarrow> Cls False chunks))"

fun translate :: "string \<Rightarrow> tok list" where
  "translate [] = []"
| "translate (c # pat) =
     (if c = CHR ''*'' then
        (if startswith pat ''*'' then translate pat else Star # translate pat)
      else if c = CHR ''?'' then AnyChar # translate pat
      else if c = CHR ''['' then
        (case class_end pat of
           None \<Rightarrow> Lit CHR ''['' # translate pat
         | Some j \<Rightarrow> translate_class (take j pat) # translate (drop (Suc j) pat))
      else Lit c # translate pat)"

text \<open>
  A class \<open>Cls negated chunks\<close> holds the characters of its chunks and the ranges from
  the last character of a chunk to the first character of the next.
\<close>

fun in_ranges :: "char \<Rightarrow> string list \<Rightarrow> bool" where
  "in_ranges c (a # b # cs) =
     ((a \<noteq> [] \<and> b \<noteq> [] \<and> (of_char (last a) :: nat) \<le> of_char c
        \<and> (of_char c :: nat) \<le> of_char (hd b))
      \<or> in_ranges c (b # cs))"
| "in_ranges c _ = False"

definition in_class :: "char \<Rightarrow> string list \<Rightarrow> bool" where
  "in_class c chunks = (list_ex (\<lambda>chunk. c \<in> set chunk) chunks \<or> in_ranges c chunks)"

fun match_tok :: "tok \<Rightarrow> char \<Rightarrow> bool" where
  "match_tok AnyChar c = True"
| "match_tok Never c = False"
| "match_tok (Lit a) c = (a = c)"
| "match_tok (Cls negated chunks) c = (in_class c chunks \<noteq> negated)"
| "match_tok Star c = True"

fun match_toks :: "tok list \<Rightarrow> string \<Rightarrow> bool" where
  "match_toks [] s = (s = [])"
| "match_toks (Star # ts) [] = match_toks ts []"
| "match_toks (Star # ts) (c # cs) = (match_toks ts (c # cs) \<or> match_toks (Star # ts) cs)"
| "match_toks (t # ts) [] = False"
| "match_toks (t # ts) (c # cs) = (match_tok t c \<and> match_toks ts cs)"

definition fnmatch :: "string \<Rightarrow> string \<Rightarrow> bool" where
  "fnmatch name pat = match_toks (translate pat) name"

section \<open>The file system and the AutoReadme object\<close>

text \<open>
  A directory entry is a regular file with its text or a directory with its named
  entries, in the order in which the operating system lists them (\<open>os.listdir\<close> and
  \<open>os.scandir\<close> promise no order). Symbolic links and special files are not modelled.
\<close>

datatype node = File string | Dir "(string \<times> node) list"

text \<open>
  What the program reads from its environment: the working directory, the node that
  \<open>project_dir\<close> names (\<open>None\<close> when nothing exists there), the entries of
  \<open>out_put_dir\<close> (\<open>None\<close> when it does not exist) and the text of
  \<open>requirements_env.txt\<close> after the \<open>pip freeze\<close> command (\<open>None\<close> when the file could
  not be created).
\<close>

record os_state =
  getcwd :: string
  project_node :: "node option"
  output_entries :: "(string \<times> node) list option"
  requirements_env :: "string option"

text \<open>The fields that \<open>AutoReadme.__init__\<close> sets.\<close>

record auto_readme =
  project_name :: string
  project_dir :: string
  project_description :: "string option"
  project_author :: string
  project_author_info :: "string option"
  language :: string
  config_dir :: string
  model :: string
  out_put_dir :: string
  readme_path :: string

text \<open>
  \<open>__init__\<close>, without its calls of \<open>os.makedirs\<close> and its log record; \<open>root_dir\<close> is
  the module constant \<open>ROOT_DIR\<close>.
\<close>

definition init :: "string \<Rightarrow> string \<Rightarrow> string \<Rightarrow> string \<Rightarrow> string option \<Rightarrow> string option
    \<Rightarrow> string option \<Rightarrow> string option \<Rightarrow> string option \<Rightarrow> string \<Rightarrow> auto_readme" where
  "init root_dir project_name' project_dir' author author_info model_name out_put_dir'
      project_description' config_dir' language' =
     (let model_name1 =
            (case model_name of
               None \<Rightarrow> ''gpt-4o''
             | Some m \<Rightarrow> if m = [] then ''gpt-4o'' else m);
          out_put_dir1 =
            (case out_put_dir' of
               None \<Rightarrow> join (join root_dir ''output'') project_name'
             | Some d \<Rightarrow> d);
          config_dir1 =
            (case config_dir' of
               None \<Rightarrow> join root_dir ''config''
             | Some d \<Rightarrow> if d = [] then join root_dir ''config'' else d)
      in \<lparr>project_name = project_name',
          project_dir = project_dir',
          project_description = project_description',
          project_author = author,
          project_author_info = author_info,
          language = language',
          config_dir = config_dir1,
          model = model_name1,
          out_put_dir = out_put_dir1,
          readme_path = join out_put_dir1 ''README.md''\<rparr>)"

text \<open>
  The names that a directory listing can hold: not empty, without a separator, and
  neither \<open>.\<close> nor \<open>..\<close>.
\<close>

definition valid_name :: "string \<Rightarrow> bool" where
  "valid_name name = (name \<noteq> [] \<and> CHR ''/'' \<notin> set name \<and> name \<noteq> ''.'' \<and> name \<noteq> ''..'')"

fun valid_node :: "node \<Rightarrow> bool" and valid_entries :: "(string \<times> node) list \<Rightarrow> bool" where
  "valid_node (File content) = True"
| "valid_node (Dir entries) = valid_entries entries"
| "valid_entries [] = True"
| "valid_entries ((name, nd) # entries) =
     (valid_name name \<and> valid_node nd \<and> valid_entries entries)"

text \<open>The empty path names no file.\<close>

definition project_root :: "os_state \<Rightarrow> auto_readme \<Rightarrow> node option" where
  "project_root st self = (if project_dir self = [] then None else project_node st)"

fun listdir :: "node option \<Rightarrow> py_error + (string \<times> node) list" where
  "listdir None = Inl FileNotFoundError"
| "listdir (Some (File content)) = Inl NotADirectoryError"
| "listdir (Some (Dir entries)) = Inr entries"

section \<open>load_ignore_files\<close>

text \<open>
  A file opened in text mode translates \<open>\r\n\<close> and \<open>\r\<close> to \<open>\n\<close>; iterating over it
  yields its lines, each with its newline (the last line may have none).
\<close>

fun universal_newlines :: "string \<Rightarrow> string" where
  "universal_newlines [] = []"
| "universal_newlines (c # cs) =
     (if c = CHR 0x0D then
        (case cs of
           d # ds \<Rightarrow> if d = CHR 0x0A then CHR 0x0A # universal_newlines ds
                     else CHR 0x0A # universal_newlines cs
         | [] \<Rightarrow> [CHR 0x0A])
      else c # universal_newlines cs)"

fun file_lines :: "string \<Rightarrow> string list" where
  "file_lines [] = []"
| "file_lines (c # cs) =
     (if c = CHR 0x0A then [c] # file_lines cs
      else (case file_lines cs of
              [] \<Rightarrow> [[c]]
            | l # ls \<Rightarrow> (c # l) # ls))"

text \<open>
  The pattern that the body of the loop over the lines of \<open>.gitignore\<close> appends for a line
  that it keeps.
\<close>

definition ignore_pattern :: "string \<Rightarrow> string" where
  "ignore_pattern line =
     (let line1 = lstrip (strip line) ''/''
      in if endswith line1 ''/'' then line1 @ ''*'' else line1)"

fun ignore_lines :: "string list \<Rightarrow> string list \<Rightarrow> string list" where
  "ignore_lines ignore_files [] = ignore_files"
| "ignore_lines ignore_files (line # lines) =
     (if line \<noteq> [] \<and> \<not> startswith line ''#''
      then ignore_lines (ignore_files @ [ignore_pattern line]) lines
      else ignore_lines ignore_files lines)"

text \<open>The patterns read from a \<open>.gitignore\<close> with the given text.\<close>

definition load_ignore_text :: "string \<Rightarrow> string list" where
  "load_ignore_text content = ignore_lines [] (file_lines (universal_newlines content))"

text \<open>
  \<open>os.path.exists(gitignore_path)\<close> holds when the project directory is a directory
  with an entry \<open>.gitignore\<close>; \<open>open\<close> fails on a directory.
\<close>

definition load_ignore_files :: "os_state \<Rightarrow> auto_readme \<Rightarrow> py_error + string list" where
  "load_ignore_files st self =
     (case project_root st self of
        Some (Dir entries) \<Rightarrow>
          (case map_of entries ''.gitignore'' of
             None \<Rightarrow> Inr []
           | Some (File content) \<Rightarrow> Inr (load_ignore_text content)
           | Some (Dir es) \<Rightarrow> Inl IsADirectoryError)
      | _ \<Rightarrow> Inr [])"

section \<open>is_ignored\<close>

definition is_ignored :: "os_state \<Rightarrow> auto_readme \<Rightarrow> string \<Rightarrow> string list \<Rightarrow> py_error + bool" where
  "is_ignored st self filepath ignore_files =
     (case relpath (getcwd st) filepath (project_dir self) of
        Inl e \<Rightarrow> Inl e
      | Inr relative_path \<Rightarrow>
          if list_ex (\<lambda>part. startswith part ''.'') (py_split CHR ''/'' filepath)
             \<or> contains relative_path ''__pycache__''
          then Inr True
          else Inr (list_ex (\<lambda>pattern. fnmatch relative_path pattern) ignore_files))"

section \<open>find_all_scripts_and_config_files\<close>

text \<open>
  \<open>os.walk(top)\<close>, top-down, with the default \<open>onerror=None\<close>: a directory that cannot
  be listed yields nothing and raises nothing. Each step is \<open>(root, dirs, files)\<close>; the
  files come with their text, which \<open>open(script).read()\<close> returns later.
\<close>

fun walk :: "string \<Rightarrow> node \<Rightarrow> (string \<times> string list \<times> (string \<times> string) list) list"
  and walk_dirs :: "string \<Rightarrow> (string \<times> node) list
                     \<Rightarrow> (string \<times> string list \<times> (string \<times> string) list) list" where
  "walk top' (File content) = []"
| "walk top' (Dir entries) =
     (top',
      concat (map (\<lambda>(name, nd). case nd of Dir es \<Rightarrow> [name] | File c \<Rightarrow> []) entries),
      concat (map (\<lambda>(name, nd). case nd of Dir es \<Rightarrow> [] | File c \<Rightarrow> [(name, c)]) entries))
     # walk_dirs top' entries"
| "walk_dirs top' [] = []"
| "walk_dirs top' ((name, nd) # entries) = walk (join top' name) nd @ walk_dirs top' entries"

definition os_walk :: "string \<Rightarrow> node option
    \<Rightarrow> (string \<times> string list \<times> (string \<times> string) list) list" where
  "os_walk top' nd = (case nd of None \<Rightarrow> [] | Some n \<Rightarrow> walk top' n)"

text \<open>
  The inner loop over the files of one directory. Every name in \<open>files\<close> is a regular
  file of the tree, so \<open>os.path.isfile(filepath)\<close> holds.
\<close>

fun scripts_in_files :: "os_state \<Rightarrow> auto_readme \<Rightarrow> string list \<Rightarrow> string
    \<Rightarrow> (string \<times> string) list \<Rightarrow> py_error + (string \<times> string) list" where
  "scripts_in_files st self ignore_files root [] = Inr []"
| "scripts_in_files st self ignore_files root ((file, content) # files) =
     (let filepath = join root file in
      case is_ignored st self filepath ignore_files of
        Inl e \<Rightarrow> Inl e
      | Inr ignored \<Rightarrow>
          (case scripts_in_files st self ignore_files root files of
             Inl e \<Rightarrow> Inl e
           | Inr scripts \<Rightarrow>
               if \<not> ignored \<and>
                  (endswith file ''.py'' \<or> endswith file ''.sh'' \<or> endswith file ''.bash''
                   \<or> (endswith file ''.json'' \<and> contains (lower root) ''config''))
               then Inr ((filepath, content) # scripts)
               else Inr scripts))"

text \<open>The outer loop over the steps of the walk.\<close>

fun scripts_in_walk :: "os_state \<Rightarrow> auto_readme \<Rightarrow> string list
    \<Rightarrow> (string \<times> string list \<times> (string \<times> string) list) list
    \<Rightarrow> py_error + (string \<times> string) list" where
  "scripts_in_walk st self ignore_files [] = Inr []"
| "scripts_in_walk st self ignore_files ((root, dirs, files) # steps) =
     (case scripts_in_files st self ignore_files root files of
        Inl e \<Rightarrow> Inl e
      | Inr scripts \<Rightarrow>
          (case scripts_in_walk st self ignore_files steps of
             Inl e \<Rightarrow> Inl e
           | Inr later \<Rightarrow> Inr (scripts @ later)))"

text \<open>The scripts found, each with the text of its file.\<close>

definition find_scripts_with_text :: "os_state \<Rightarrow> auto_readme
    \<Rightarrow> py_error + (string \<times> string) list" where
  "find_scripts_with_text st self =
     (case load_ignore_files st self of
        Inl e \<Rightarrow> Inl e
      | Inr ignore_files \<Rightarrow>
          scripts_in_walk st self ignore_files
            (os_walk (project_dir self) (project_root st self)))"

definition find_all_scripts_and_config_files :: "os_state \<Rightarrow> auto_readme
    \<Rightarrow> py_error + string list" where
  "find_all_scripts_and_config_files st self =
     (case find_scripts_with_text st self of
        Inl e \<Rightarrow> Inl e
      | Inr scripts \<Rightarrow> Inr (map fst scripts))"

section \<open>generate_project_structure\<close>

fun node_size :: "node \<Rightarrow> nat" and entries_size :: "(string \<times> node) list \<Rightarrow> nat" where
  "node_size (File content) = 1"
| "node_size (Dir entries) = Suc (entries_size entries)"
| "entries_size [] = 0"
| "entries_size ((name, nd) # entries) = Suc (node_size nd + entries_size entries)"

lemma entries_size_insort:
  "entries_size (insort_key fst e es) = entries_size (e # es)"
  by (cases e, induction es) auto

lemma entries_size_sort: "entries_size (sort_key fst es) = entries_size es"
  by (induction es) (auto simp: entries_size_insort)

text \<open>
  \<open>structure_items\<close> is the loop over \<open>sorted(os.listdir(dir_path))\<close>: the entries of the
  directory in the order of their names, each with its node, which answers
  \<open>os.path.isdir(item_path)\<close>. \<open>structure_dir\<close> is the listing of a directory and the loop
  over it, that is, the function after its \<open>ignore_files\<close> default has been resolved.
\<close>

function structure_dir :: "os_state \<Rightarrow> auto_readme \<Rightarrow> string \<Rightarrow> node \<Rightarrow> nat \<Rightarrow> string list
      \<Rightarrow> py_error + string list"
  and structure_items :: "os_state \<Rightarrow> auto_readme \<Rightarrow> string \<Rightarrow> (string \<times> node) list \<Rightarrow> nat
      \<Rightarrow> string list \<Rightarrow> py_error + string list" where
  "structure_dir st self dir_path (File content) indent_level ignore_files =
     Inl NotADirectoryError"
| "structure_dir st self dir_path (Dir entries) indent_level ignore_files =
     structure_items st self dir_path (sort_key fst entries) indent_level ignore_files"
| "structure_items st self dir_path [] indent_level ignore_files = Inr []"
| "structure_items st self dir_path ((item, nd) # items) indent_level ignore_files =
     (let item_path = join dir_path item in
      case is_ignored st self item_path ignore_files of
        Inl e \<Rightarrow> Inl e
      | Inr True \<Rightarrow> structure_items st self dir_path items indent_level ignore_files
      | Inr False \<Rightarrow>
          (case nd of
             Dir es \<Rightarrow>
               (case structure_dir st self item_path nd (indent_level + 1) ignore_files of
                  Inl e \<Rightarrow> Inl e
                | Inr sub \<Rightarrow>
                    (case structure_items st self dir_path items indent_level ignore_files of
                       Inl e \<Rightarrow> Inl e
                     | Inr rest \<Rightarrow>
                         Inr ((concat (replicate indent_level ''  '') @ ''- **'' @ item @ ''/**'')
                              # sub @ rest)))
           | File c \<Rightarrow>
               (case structure_items st self dir_path items indent_level ignore_files of
                  Inl e \<Rightarrow> Inl e
                | Inr rest \<Rightarrow>
                    Inr ((concat (replicate indent_level ''  '') @ ''- '' @ item) # rest))))"
  by pat_completeness auto
termination
  by (relation "measure (\<lambda>x. case x of
         Inl (st, self, dir_path, nd, indent_level, ignore_files) \<Rightarrow> node_size nd
       | Inr (st, self, dir_path, items, indent_level, ignore_files) \<Rightarrow> entries_size items)")
     (auto simp: entries_size_sort)

text \<open>
  \<open>generate_project_structure(dir_path, indent_level, ignore_files)\<close>; \<open>nd\<close> is what
  \<open>dir_path\<close> names. With \<open>ignore_files=None\<close> the patterns are loaded first.
\<close>

definition generate_project_structure :: "os_state \<Rightarrow> auto_readme \<Rightarrow> string \<Rightarrow> node option
    \<Rightarrow> nat \<Rightarrow> string list option \<Rightarrow> py_error + string list" where
  "generate_project_structure st self dir_path nd indent_level ignore_files =
     (case (case ignore_files of
              None \<Rightarrow> load_ignore_files st self
            | Some pats \<Rightarrow> Inr pats) of
        Inl e \<Rightarrow> Inl e
      | Inr pats \<Rightarrow>
          (case nd of
             None \<Rightarrow> Inl FileNotFoundError
           | Some n \<Rightarrow> structure_dir st self dir_path n indent_level pats))"

section \<open>json.loads\<close>

text \<open>
  The values that \<open>json.loads\<close> returns. A decoded string is a list of code points,
  since a \<open>\uXXXX\<close> escape can name any of them; a number keeps its literal text
  (\<open>NaN\<close>, \<open>Infinity\<close> and \<open>-Infinity\<close> included); an object is a Python \<open>dict\<close>, an
  association list in insertion order with one entry for each key.
\<close>

datatype json =
    JNull
  | JBool bool
  | JNumber string
  | JString "nat list"
  | JArray "json list"
  | JObject "(nat list \<times> json) list"

definition ustr :: "string \<Rightarrow> nat list" where
  "ustr s = map of_char s"

text \<open>\<open>d[k] = v\<close> on a \<open>dict\<close>: a new key goes to the end, an old key keeps its place.\<close>

fun dict_set :: "('k \<times> 'v) list \<Rightarrow> 'k \<Rightarrow> 'v \<Rightarrow> ('k \<times> 'v) list" where
  "dict_set [] k v = [(k, v)]"
| "dict_set ((k', v') # d) k v = (if k' = k then (k, v) # d else (k', v') # dict_set d k v)"

definition is_digit :: "char \<Rightarrow> bool" where
  "is_digit c = (48 \<le> (of_char c :: nat) \<and> (of_char c :: nat) \<le> 57)"

definition hex_digit :: "char \<Rightarrow> nat option" where
  "hex_digit c = (let n = (of_char c :: nat) in
     if 48 \<le> n \<and> n \<le> 57 then Some (n - 48)
     else if 97 \<le> n \<and> n \<le> 102 then Some (n - 87)
     else if 65 \<le> n \<and> n \<le> 70 then Some (n - 55)
     else None)"

definition hex4 :: "char \<Rightarrow> char \<Rightarrow> char \<Rightarrow> char \<Rightarrow> nat option" where
  "hex4 a b c d =
     (case (hex_digit a, hex_digit b, hex_digit c, hex_digit d) of
        (Some w, Some x, Some y, Some z) \<Rightarrow> Some (((w * 16 + x) * 16 + y) * 16 + z)
      | _ \<Rightarrow> None)"

text \<open>The one-character escapes of a JSON string.\<close>

definition escape_char :: "char \<Rightarrow> nat option" where
  "escape_char esc =
     (if esc = CHR 0x22 then Some 0x22
      else if esc = CHR 0x5C then Some 0x5C
      else if esc = CHR ''/'' then Some 0x2F
      else if esc = CHR ''b'' then Some 0x08
      else if esc = CHR ''f'' then Some 0x0C
      else if esc = CHR ''n'' then Some 0x0A
      else if esc = CHR ''r'' then Some 0x0D
      else if esc = CHR ''t'' then Some 0x09
      else None)"

text \<open>The value of the four hexadecimal digits at the start of a text.\<close>

definition hex4_prefix :: "string \<Rightarrow> nat option" where
  "hex4_prefix s = (case s of h1 # h2 # h3 # h4 # rest \<Rightarrow> hex4 h1 h2 h3 h4 | _ \<Rightarrow> None)"

text \<open>
  The low half of a surrogate pair: the text starts with a \<open>\uXXXX\<close> escape between
  \<open>DC00\<close> and \<open>DFFF\<close>.
\<close>

definition low_surrogate :: "string \<Rightarrow> nat option" where
  "low_surrogate s =
     (if startswith s [CHR 0x5C, CHR ''u''] then
        (case hex4_prefix (drop 2 s) of
           Some uni2 \<Rightarrow> if 0xDC00 \<le> uni2 \<and> uni2 \<le> 0xDFFF then Some uni2 else None
         | None \<Rightarrow> None)
      else None)"

text \<open>
  One escape, from the character after the backslash: its code point and the text
  after it.
\<close>

definition scan_escape :: "string \<Rightarrow> (nat \<times> string) option" where
  "scan_escape s =
     (case s of
        [] \<Rightarrow> None
      | esc # rest \<Rightarrow>
          if esc \<noteq> CHR ''u'' then
            (case escape_char esc of
               None \<Rightarrow> None
             | Some ch \<Rightarrow> Some (ch, rest))
          else
            (case hex4_prefix rest of
               None \<Rightarrow> None
             | Some uni \<Rightarrow>
                 if 0xD800 \<le> uni \<and> uni \<le> 0xDBFF then
                   (case low_surrogate (drop 4 rest) of
                      Some uni2 \<Rightarrow>
                        Some (0x10000 + ((uni - 0xD800) * 1024 + (uni2 - 0xDC00)),
                              drop 10 rest)
                    | None \<Rightarrow> Some (uni, drop 4 rest))
                 else Some (uni, drop 4 rest)))"

lemma scan_escape_length: "scan_escape s = Some (ch, rest) \<Longrightarrow> length rest < length s"
  by (cases s) (auto simp: scan_escape_def split: if_splits option.splits)

definition cons_char :: "nat \<Rightarrow> (nat list \<times> string) option \<Rightarrow> (nat list \<times> string) option" where
  "cons_char ch r = (case r of None \<Rightarrow> None | Some (chars, rest) \<Rightarrow> Some (ch # chars, rest))"

lemma cons_char_Some:
  "cons_char ch r = Some (chars, rest) \<Longrightarrow> \<exists>chars'. r = Some (chars', rest)"
  by (auto simp: cons_char_def split: option.splits)

text \<open>
  \<open>scanstring\<close> in strict mode, from the character after the opening quote: the decoded
  string and the text after the closing quote, or \<open>None\<close> for a \<open>JSONDecodeError\<close>
  (unterminated string, control character, invalid escape).
\<close>

function scanstring :: "string \<Rightarrow> (nat list \<times> string) option" where
  "scanstring [] = None"
| "scanstring (c # cs) =
     (if c = CHR 0x22 then Some ([], cs)
      else if c = CHR 0x5C then
        (case scan_escape cs of
           None \<Rightarrow> None
         | Some (ch, rest) \<Rightarrow> cons_char ch (scanstring rest))
      else if (of_char c :: nat) < 0x20 then None
      else cons_char (of_char c) (scanstring cs))"
  by pat_completeness auto
termination
  by (relation "measure length") (auto dest: scan_escape_length)

lemma scanstring_length: "scanstring s = Some (chars, rest) \<Longrightarrow> length rest < length s"
proof (induction s arbitrary: chars rest rule: scanstring.induct)
  case 1
  then show ?case by simp
next
  case (2 c cs)
  show ?case
  proof (cases "c = CHR 0x22")
    case True
    with "2.prems" show ?thesis by simp
  next
    case quote: False
    show ?thesis
    proof (cases "c = CHR 0x5C")
      case True
      with "2.prems" obtain ch r where esc: "scan_escape cs = Some (ch, r)"
        and c: "cons_char ch (scanstring r) = Some (chars, rest)"
        by (auto split: option.splits)
      from c obtain chars' where "scanstring r = Some (chars', rest)"
        using cons_char_Some by blast
      then have "length rest < length r"
        using "2.IH"(1)[OF quote True esc refl] by simp
      moreover have "length r < length cs"
        using esc by (rule scan_escape_length)
      ultimately show ?thesis by simp
    next
      case False
      with quote "2.prems" have ctl: "\<not> (of_char c :: nat) < 0x20"
        and c: "cons_char (of_char c) (scanstring cs) = Some (chars, rest)"
        by (auto split: if_splits)
      from c obtain chars' where "scanstring cs = Some (chars', rest)"
        using cons_char_Some by blast
      then have "length rest < length cs"
        using "2.IH"(2)[OF quote False ctl] by simp
      then show ?thesis by simp
    qed
  qed
qed

text \<open>
  The length of the longest prefix that the number pattern
  \<open>(-?(?:0|[1-9][0-9]*))(\.[0-9]+)?([eE][-+]?[0-9]+)?\<close> matches, if any.
\<close>

definition number_match :: "string \<Rightarrow> nat option" where
  "number_match s =
     (let sign = (if startswith s ''-'' then 1 else 0);
          s1 = drop sign s;
          int_len =
            (if startswith s1 ''0'' then 1 else length (takeWhile is_digit s1))
      in if int_len = 0 then None
         else
           let s2 = drop int_len s1;
               frac = (if startswith s2 ''.'' then length (takeWhile is_digit (drop 1 s2)) else 0);
               frac_len = (if frac = 0 then 0 else 1 + frac);
               s3 = drop frac_len s2;
               exp_sign =
                 (if startswith s3 ''e'' \<or> startswith s3 ''E''
                  then (if startswith (drop 1 s3) ''+'' \<or> startswith (drop 1 s3) ''-''
                        then 1 else 0)
                  else 0);
               exp_digits =
                 (if startswith s3 ''e'' \<or> startswith s3 ''E''
                  then length (takeWhile is_digit (drop (1 + exp_sign) s3)) else 0);
               exp_len = (if exp_digits = 0 then 0 else 1 + exp_sign + exp_digits)
           in Some (sign + int_len + frac_len + exp_len))"

lemma number_match_pos: "number_match s = Some n \<Longrightarrow> 0 < n"
  by (auto simp: number_match_def Let_def split: if_splits)

text \<open>
  The decoder reads a text as tokens separated by optional white space: the six
  structural characters and the scalar values, in the order in which \<open>scan_once\<close>
  tries them.
\<close>

datatype jtok = TLBrace | TRBrace | TLBracket | TRBracket | TColon | TComma | TValue json

definition tcons :: "jtok \<Rightarrow> jtok list option \<Rightarrow> jtok list option" where
  "tcons t r = (case r of None \<Rightarrow> None | Some ts \<Rightarrow> Some (t # ts))"

function json_lex :: "string \<Rightarrow> jtok list option" where
  "json_lex [] = Some []"
| "json_lex (c # cs) =
     (if c = CHR '' '' \<or> c = CHR 0x09 \<or> c = CHR 0x0A \<or> c = CHR 0x0D then json_lex cs
      else if c = CHR ''{'' then tcons TLBrace (json_lex cs)
      else if c = CHR ''}'' then tcons TRBrace (json_lex cs)
      else if c = CHR ''['' then tcons TLBracket (json_lex cs)
      else if c = CHR '']'' then tcons TRBracket (json_lex cs)
      else if c = CHR '':'' then tcons TColon (json_lex cs)
      else if c = CHR '','' then tcons TComma (json_lex cs)
      else if c = CHR 0x22 then
        (case scanstring cs of
           None \<Rightarrow> None
         | Some (chars, rest) \<Rightarrow> tcons (TValue (JString chars)) (json_lex rest))
      else if startswith (c # cs) ''null'' then tcons (TValue JNull) (json_lex (drop 3 cs))
      else if startswith (c # cs) ''true'' then
        tcons (TValue (JBool True)) (json_lex (drop 3 cs))
      else if startswith (c # cs) ''false'' then
        tcons (TValue (JBool False)) (json_lex (drop 4 cs))
      else
        (case number_match (c # cs) of
           Some n \<Rightarrow> tcons (TValue (JNumber (take n (c # cs)))) (json_lex (drop n (c # cs)))
         | None \<Rightarrow>
             if startswith (c # cs) ''NaN'' then
               tcons (TValue (JNumber ''NaN'')) (json_lex (drop 2 cs))
             else if startswith (c # cs) ''Infinity'' then
               tcons (TValue (JNumber ''Infinity'')) (json_lex (drop 7 cs))
             else if startswith (c # cs) ''-Infinity'' then
               tcons (TValue (JNumber ''-Infinity'')) (json_lex (drop 8 cs))
             else None))"
  by pat_completeness auto
termination
  by (relation "measure length")
     (auto dest: scanstring_length number_match_pos)

text \<open>
  The grammar of values over the tokens, with the containers that are open kept on a
  stack: an array with its items so far, an object with its pairs so far, and above an
  object the key whose value is being read.
\<close>

datatype frame = FArray "json list" | FObject "(nat list \<times> json) list" | FKey "nat list"

datatype pstate =
    PValue
  | PArrayStart
  | PObjectStart
  | PKey
  | PColon "nat list"
  | PAfter
  | PDone json

text \<open>A complete value goes to the container that is open, or is the result.\<close>

fun deliver :: "json \<Rightarrow> frame list \<Rightarrow> (pstate \<times> frame list) option" where
  "deliver v [] = Some (PDone v, [])"
| "deliver v (FArray items # stack) = Some (PAfter, FArray (items @ [v]) # stack)"
| "deliver v (FKey k # FObject pairs # stack) = Some (PAfter, FObject (dict_set pairs k v) # stack)"
| "deliver v _ = None"

fun start_value :: "jtok \<Rightarrow> frame list \<Rightarrow> (pstate \<times> frame list) option" where
  "start_value (TValue v) stack = deliver v stack"
| "start_value TLBracket stack = Some (PArrayStart, FArray [] # stack)"
| "start_value TLBrace stack = Some (PObjectStart, FObject [] # stack)"
| "start_value _ stack = None"

fun step :: "pstate \<Rightarrow> frame list \<Rightarrow> jtok \<Rightarrow> (pstate \<times> frame list) option" where
  "step PValue stack t = start_value t stack"
| "step PArrayStart stack t =
     (case t of
        TRBracket \<Rightarrow>
          (case stack of
             FArray items # stack' \<Rightarrow> deliver (JArray items) stack'
           | _ \<Rightarrow> None)
      | _ \<Rightarrow> start_value t stack)"
| "step PObjectStart stack t =
     (case t of
        TRBrace \<Rightarrow>
          (case stack of
             FObject pairs # stack' \<Rightarrow> deliver (JObject pairs) stack'
           | _ \<Rightarrow> None)
      | TValue (JString k) \<Rightarrow> Some (PColon k, stack)
      | _ \<Rightarrow> None)"
| "step PKey stack t =
     (case t of
        TValue (JString k) \<Rightarrow> Some (PColon k, stack)
      | _ \<Rightarrow> None)"
| "step (PColon k) stack t =
     (case t of
        TColon \<Rightarrow> Some (PValue, FKey k # stack)
      | _ \<Rightarrow> None)"
| "step PAfter stack t =
     (case stack of
        FArray items # stack' \<Rightarrow>
          (case t of
             TComma \<Rightarrow> Some (PValue, stack)
           | TRBracket \<Rightarrow> deliver (JArray items) stack'
           | _ \<Rightarrow> None)
      | FObject pairs # stack' \<Rightarrow>
          (case t of
             TComma \<Rightarrow> Some (PKey, stack)
           | TRBrace \<Rightarrow> deliver (JObject pairs) stack'
           | _ \<Rightarrow> None)
      | _ \<Rightarrow> None)"
| "step (PDone v) stack t = None"

fun run_tokens :: "pstate \<Rightarrow> frame list \<Rightarrow> jtok list \<Rightarrow> json option" where
  "run_tokens (PDone v) stack [] = Some v"
| "run_tokens s stack [] = None"
| "run_tokens s stack (t # ts) =
     (case step s stack t of
        None \<Rightarrow> None
      | Some (s', stack') \<Rightarrow> run_tokens s' stack' ts)"

definition json_loads :: "string \<Rightarrow> py_error + json" where
  "json_loads s =
     (case json_lex s of
        None \<Rightarrow> Inl JSONDecodeError
      | Some ts \<Rightarrow>
          (case run_tokens PValue [] ts of
             None \<Rightarrow> Inl JSONDecodeError
           | Some v \<Rightarrow> Inr v))"

text \<open>\<open>obj[key]\<close> for a string key: only a \<open>dict\<close> can be indexed by a string.\<close>

fun subscript :: "json \<Rightarrow> nat list \<Rightarrow> py_error + json" where
  "subscript (JObject pairs) key =
     (case map_of pairs key of None \<Rightarrow> Inl KeyError | Some v \<Rightarrow> Inr v)"
| "subscript _ key = Inl TypeError"

section \<open>generate_project_requirements\<close>

text \<open>
  Of the log, the records at level \<open>ERROR\<close> are modelled: the message, and the exception
  whose text ends the message where there is one.
\<close>

datatype log_record = LogError string "py_error option"

text \<open>
  The inner function \<open>parse_requirements_output\<close>: the \<open>try\<close> block strips the fence,
  parses and takes the entry \<open>requirements\<close>; any exception is logged and replaced by
  the empty list.
\<close>

definition output_str :: "string \<Rightarrow> string" where
  "output_str output =
     rstrip (lstrip output ([CHR 0x60, CHR 0x60, CHR 0x60] @ ''json''))
       [CHR 0x60, CHR 0x60, CHR 0x60]"

definition parse_requirements_output :: "string \<Rightarrow> log_record list \<times> json" where
  "parse_requirements_output output =
     (case (case json_loads (output_str output) of
              Inl e \<Rightarrow> Inl e
            | Inr output_dict \<Rightarrow> subscript output_dict (ustr ''requirements'')) of
        Inl e \<Rightarrow>
          ([LogError (''Error parsing requirements output: '' @ output @ '', '') (Some e)],
           JArray [])
      | Inr output_list \<Rightarrow> ([], output_list))"

definition generate_environment_requirements :: "os_state \<Rightarrow> py_error + string list" where
  "generate_environment_requirements st =
     (case requirements_env st of
        None \<Rightarrow> Inl FileNotFoundError
      | Some content \<Rightarrow> Inr (map strip (file_lines (universal_newlines content))))"

definition find_imports :: "string \<Rightarrow> string list" where
  "find_imports content =
     filter (\<lambda>line. startswith line ''import'' \<or> startswith line ''from'')
       (py_split CHR 0x0A content)"

text \<open>
  The text-generation collaborator \<open>get_model_answer(model_name, inputs_list,
  config_dir)\<close> is a parameter: from the model name, the messages (role and content)
  and the configuration directory to a reply or an exception.
\<close>

type_synonym collaborator = "string \<Rightarrow> (string \<times> string) list \<Rightarrow> string \<Rightarrow> py_error + string"

definition requirements_instruction :: "string \<Rightarrow> string \<Rightarrow> string" where
  "requirements_instruction import_code_lines_str environment_requirements_str =
       ''Based on the following Python code and the existing environment-exported '' @
       [CHR 0x60] @
       ''requirements.txt'' @
       [CHR 0x60] @
       '', generate a new '' @
       [CHR 0x60] @
       ''requirements.txt'' @
       [CHR 0x60] @
       '' file. Ensure that the final file accurately reflects the modules '' @
       ''used in the code, removing any unnecessary dependencies and '' @
       ''including the correct versions.'' @
       [CHR 0x0A, CHR 0x60, CHR 0x60, CHR 0x60] @
       ''python'' @
       [CHR 0x0A] @
       import_code_lines_str @
       [CHR 0x0A, CHR 0x60, CHR 0x60, CHR 0x60, CHR 0x0A] @
       ''Existing '' @
       [CHR 0x60] @
       ''requirements.txt'' @
       [CHR 0x60] @
       '' content:'' @
       [CHR 0x0A, CHR 0x60, CHR 0x60, CHR 0x60, CHR 0x0A] @
       environment_requirements_str @
       [CHR 0x0A, CHR 0x60, CHR 0x60, CHR 0x60, CHR 0x0A] @
       ''The output should be a markdown code snippet formatted in JSON, '' @
       ''such as: '' @
       [CHR 0x60, CHR 0x60, CHR 0x60] @
       ''json {'' @
       [CHR 0x22] @
       ''requirements'' @
       [CHR 0x22] @
       '': ['' @
       [CHR 0x22] @
       ''module1==1.0.0'' @
       [CHR 0x22] @
       '', '' @
       [CHR 0x22] @
       ''module2==2.0.0'' @
       [CHR 0x22] @
       '']} '' @
       [CHR 0x60, CHR 0x60, CHR 0x60]"

text \<open>
  The messages sent for the requirements: one system message, built from the import
  lines of the scripts and the environment listing.
\<close>

definition requirements_prompt :: "string list \<Rightarrow> (string \<times> string) list
    \<Rightarrow> (string \<times> string) list" where
  "requirements_prompt environment_requirements scripts =
     (let environment_requirements_str = py_join [CHR 0x0A] environment_requirements;
          import_code_lines =
            concat (map (\<lambda>(script, content). find_imports (universal_newlines content))
                      scripts);
          import_code_lines_str = py_join [CHR 0x0A] import_code_lines;
          sys_instruction =
            requirements_instruction import_code_lines_str environment_requirements_str
      in [(''system'', sys_instruction)])"

definition generate_project_requirements :: "collaborator \<Rightarrow> os_state \<Rightarrow> auto_readme
    \<Rightarrow> py_error + log_record list \<times> json" where
  "generate_project_requirements get_model_answer st self =
     (case generate_environment_requirements st of
        Inl e \<Rightarrow> Inl e
      | Inr environment_requirements \<Rightarrow>
          (case find_scripts_with_text st self of
             Inl e \<Rightarrow> Inl e
           | Inr scripts \<Rightarrow>
               (case get_model_answer (model self)
                       (requirements_prompt environment_requirements scripts)
                       (config_dir self) of
                  Inl e \<Rightarrow> Inl e
                | Inr answer \<Rightarrow> Inr (parse_requirements_output answer))))"

section \<open>generate_readme\<close>

text \<open>\<open>str.title\<close> for ASCII letters: each run of letters starts with a capital.\<close>

fun title_from :: "bool \<Rightarrow> string \<Rightarrow> string" where
  "title_from previous_is_cased [] = []"
| "title_from previous_is_cased (c # cs) =
     (let n = (of_char c :: nat) in
      if 97 \<le> n \<and> n \<le> 122 then
        (if previous_is_cased then c else char_of (n - 32)) # title_from True cs
      else if 65 \<le> n \<and> n \<le> 90 then
        (if previous_is_cased then char_of (n + 32) else c) # title_from True cs
      else c # title_from False cs)"

definition title :: "string \<Rightarrow> string" where
  "title s = title_from False s"

definition is_dependency_file :: "string \<Rightarrow> bool" where
  "is_dependency_file file =
     (file = ''requirements.txt'' \<or> file = ''PROJECT_STRUCTURE.md''
      \<or> file = ''SCRIPT_DESCRIPTION.json'' \<or> contains file ''README'')"

text \<open>The loop of \<open>get_dependency_content\<close> over the entries of the output directory.\<close>

fun dependency_files :: "(string \<times> string) list \<Rightarrow> (string \<times> node) list
    \<Rightarrow> py_error + (string \<times> string) list" where
  "dependency_files dependency_content [] = Inr dependency_content"
| "dependency_files dependency_content ((file, nd) # files) =
     (if is_dependency_file file then
        (case nd of
           Dir es \<Rightarrow> Inl IsADirectoryError
         | File content \<Rightarrow>
             dependency_files
               (dict_set dependency_content (title file) (universal_newlines content)) files)
      else dependency_files dependency_content files)"

definition get_dependency_content :: "os_state \<Rightarrow> auto_readme
    \<Rightarrow> py_error + (string \<times> string) list" where
  "get_dependency_content st self =
     (case output_entries st of
        None \<Rightarrow> Inl FileNotFoundError
      | Some files \<Rightarrow> if files = [] then Inr [] else dependency_files [] files)"

text \<open>
  The answer instruction for \<open>language == "cn"\<close>, as the bytes of its UTF-8 encoding.
\<close>

definition cn_instruction :: string where
  "cn_instruction =
     [CHR 0xE7, CHR 0x94, CHR 0xA8, CHR 0xE4, CHR 0xB8, CHR 0xAD, CHR 0xE6, CHR 0x96, CHR 0x87,
      CHR 0xE5, CHR 0x9B, CHR 0x9E, CHR 0xE7, CHR 0xAD, CHR 0x94, CHR 0xE3, CHR 0x80, CHR 0x82]"

definition readme_instruction :: string where
  "readme_instruction =
       ''Generate a comprehensive README file for this project that includes, '' @
       ''but is not limited to the following sections. If specific details '' @
       ''are unknown, set <> as placeholders: 1. Project Title: The name '' @
       ''of the project.2. Description: A brief overview of the project'' @
       [CHR 0x27] @
       ''s purpose, features, and key functionalities.3. Configuration: '' @
       ''Information on any configuration files or environment variables '' @
       ''required.4. Installation: Step-by-step instructions on how to '' @
       ''install and set up the project, including any dependencies.5. '' @
       ''Usage: Examples of how to use the project, including any command-line '' @
       ''instructions or code snippets. Indicates main function or entry '' @
       ''of the program.6. Output: The expected output position and data '' @
       ''formats of the output.7. Contact Information: How to reach the '' @
       ''maintainers or developers for support or inquiries.Ensure that '' @
       ''the README is clear, well-organized, and helpful for both new '' @
       ''users and contributors.''"

text \<open>An optional field in an f-string: \<open>None\<close> is printed as its name.\<close>

definition format_optional :: "string option \<Rightarrow> string" where
  "format_optional x = (case x of None \<Rightarrow> ''None'' | Some s \<Rightarrow> s)"

fun dependency_sections :: "(string \<times> string) list \<Rightarrow> string" where
  "dependency_sections [] = []"
| "dependency_sections ((title_text, content) # items) =
     [CHR 0x0A, CHR 0x0A] @ title_text @ '':'' @ [CHR 0x0A] @ content
     @ dependency_sections items"

text \<open>
  \<open>generate_readme\<close> returns nothing; its effects are the records it logs at level
  \<open>ERROR\<close> and the files it writes, each a path with the text written. The write by
  \<open>save_content_to_file\<close> is taken to succeed.
\<close>

definition generate_readme :: "collaborator \<Rightarrow> os_state \<Rightarrow> auto_readme
    \<Rightarrow> py_error + log_record list \<times> (string \<times> string) list" where
  "generate_readme get_model_answer st self =
     (let sys_instruction =
            readme_instruction @ (if language self = ''cn'' then cn_instruction else [])
      in case get_dependency_content st self of
           Inl e \<Rightarrow> Inl e
         | Inr dependencies \<Rightarrow>
             if dependencies = [] then
               Inr ([LogError (''No dependency files found. Please run '' @ [CHR 0x27]
                               @ ''generate_dependency'' @ [CHR 0x27] @ '' first.'') None],
                    [])
             else
               (let query =
                      ''The information of this project is as follows:'' @ [CHR 0x0A]
                      @ ''project_name: '' @ project_name self @ [CHR 0x0A]
                      @ ''project_author: '' @ project_author self @ [CHR 0x0A]
                      @ ''project_author_info: ''
                      @ format_optional (project_author_info self) @ [CHR 0x0A]
                      @ ''project_short_description: ''
                      @ format_optional (project_description self) @ [CHR 0x0A]
                      @ dependency_sections dependencies;
                    prompt = [(''system'', sys_instruction), (''user'', query)]
                in case get_model_answer (model self) prompt (config_dir self) of
                     Inl e \<Rightarrow> Inl e
                   | Inr answer \<Rightarrow> Inr ([], [(readme_path self, answer)])))"

section \<open>The words of the specification\<close>

text \<open>
  Modelled from the spec: the ignore-file rule of its section 4.1, which the source
  does not have as a function of its own. Per line: skip empty lines and lines
  beginning with \<open>#\<close>; strip surrounding whitespace and a single leading path
  separator; if the trimmed pattern ends with a path separator, append a wildcard.
\<close>

definition spec_pattern :: "string \<Rightarrow> string" where
  "spec_pattern line =
     (let trimmed = strip line;
          pattern = (if startswith trimmed ''/'' then drop 1 trimmed else trimmed)
      in if endswith pattern ''/'' then pattern @ ''*'' else pattern)"

definition spec_ignore_patterns :: "string \<Rightarrow> string list" where
  "spec_ignore_patterns content =
     map spec_pattern
       (filter (\<lambda>line. strip line \<noteq> [] \<and> \<not> startswith line ''#'')
          (file_lines (universal_newlines content)))"

text \<open>
  Modelled from the spec: the dependency name of an entry of the dependency list (a
  name plus an optional version, as in \<open>module1==1.0.0\<close>), which the source does not
  compute: the entry up to the first character of a version specifier.
\<close>

definition dependency_name :: "nat list \<Rightarrow> nat list" where
  "dependency_name entry = takeWhile (\<lambda>c. c \<notin> set (ustr ''=<>!~ ;'')) entry"

text \<open>A collaborator that gives one fixed reply.\<close>

definition replies :: "string \<Rightarrow> collaborator" where
  "replies answer = (\<lambda>model_name inputs_list config_dir'. Inr answer)"

text \<open>Some segment of a path starts with a dot.\<close>

definition dot_segment :: "string \<Rightarrow> bool" where
  "dot_segment path = list_ex (\<lambda>part. startswith part ''.'') (py_split CHR ''/'' path)"

section \<open>Auxiliary notions\<close>

text \<open>The separator that \<open>join\<close> puts after a non-empty path.\<close>

definition join_sep :: "string \<Rightarrow> string" where
  "join_sep a = (if endswith a ''/'' then [] else ''/'')"

text \<open>A component of a normal path: not empty and without a separator.\<close>

definition plain_comp :: "string \<Rightarrow> bool" where
  "plain_comp x = (x \<noteq> [] \<and> CHR ''/'' \<notin> set x)"

text \<open>
  A text that a JSON string can hold as it is: no quote, no backslash and no control
  character.
\<close>

definition plain_text :: "string \<Rightarrow> bool" where
  "plain_text s =
     list_all (\<lambda>c. c \<noteq> CHR 0x22 \<and> c \<noteq> CHR 0x5C \<and> 0x20 \<le> (of_char c :: nat)) s"

text \<open>A text between double quotes.\<close>

definition quoted :: "string \<Rightarrow> string" where
  "quoted s = [CHR 0x22] @ s @ [CHR 0x22]"

text \<open>
  The reply in the form that the prompt asks for: a fenced JSON object whose
  \<open>requirements\<close> is the list of the entries, as strings.
\<close>

definition requirements_reply :: "string list \<Rightarrow> string" where
  "requirements_reply entries =
     [CHR 0x60, CHR 0x60, CHR 0x60] @ ''json {'' @ quoted ''requirements'' @ '': [''
     @ py_join '', '' (map quoted entries) @ '']} '' @ [CHR 0x60, CHR 0x60, CHR 0x60]"

text \<open>Tokens in front of the tokens of the rest, when the rest has tokens.\<close>

definition tapp :: "jtok list \<Rightarrow> jtok list option \<Rightarrow> jtok list option" where
  "tapp ts r = (case r of None \<Rightarrow> None | Some us \<Rightarrow> Some (ts @ us))"

section \<open>Example inputs\<close>

text \<open>An AutoReadme object for a project directory, with every default.\<close>

definition example_self :: "string \<Rightarrow> auto_readme" where
  "example_self dir =
     init ''/opt/autoreadme'' ''demo'' dir ''Ada'' None None None None None ''en''"

text \<open>
  An environment with a working directory and a project node, an empty output
  directory and an empty \<open>pip freeze\<close> listing.
\<close>

definition example_state :: "string \<Rightarrow> node option \<Rightarrow> os_state" where
  "example_state cwd nd =
     \<lparr>getcwd = cwd, project_node = nd, output_entries = Some [],
      requirements_env = Some []\<rparr>"

text \<open>
  A project with the ignore line \<open>build\<close> and a script in the directory \<open>build\<close>.
\<close>

definition build_tree :: node where
  "build_tree = Dir [(''.gitignore'', File (''build'' @ [CHR 0x0A])),
                     (''build'', Dir [(''out.py'', File ''print(1)'')])]"

text \<open>A project that holds only a \<open>.gitignore\<close> with the given text.\<close>

definition gitignore_state :: "string \<Rightarrow> os_state" where
  "gitignore_state content =
     example_state ''/home/user'' (Some (Dir [(''.gitignore'', File content)]))"


text \<open>
  Two replies of the collaborator: a fenced reply whose list names \<open>numpy\<close> twice, and a
  reply whose \<open>requirements\<close> is a string instead of a list.
\<close>

definition fenced_duplicates :: string where
  "fenced_duplicates =
     [CHR 0x60, CHR 0x60, CHR 0x60] @ ''json {'' @ [CHR 0x22] @ ''requirements'' @ [CHR 0x22]
     @ '': ['' @ [CHR 0x22] @ ''numpy==1.0'' @ [CHR 0x22] @ '', '' @ [CHR 0x22] @ ''numpy==2.0''
     @ [CHR 0x22] @ '']} '' @ [CHR 0x60, CHR 0x60, CHR 0x60]"

definition string_for_list :: string where
  "string_for_list =
     ''{'' @ [CHR 0x22] @ ''requirements'' @ [CHR 0x22] @ '': '' @ [CHR 0x22] @ ''numpy==1.26.0''
     @ [CHR 0x22] @ ''}''"

text \<open>A project with a script at its top and a script in a package.\<close>

definition script_tree :: node where
  "script_tree = Dir [(''main.py'', File ''print(1)''),
                      (''pkg'', Dir [(''util.py'', File ''import os'')])]"

text \<open>
  The scenario tree \<open>{ .git/config, src/main.py, src/README, config/settings.json }\<close>:
  its three top-level entries, and the relevant files that each top-level name
  contributes below a project directory.
\<close>

definition scenario_git :: "string \<times> node" where
  "scenario_git = (''.git'', Dir [(''config'', File ''[core]'')])"

definition scenario_src :: "string \<times> node" where
  "scenario_src = (''src'', Dir [(''main.py'', File ''import os''), (''README'', File ''notes'')])"

definition scenario_config :: "string \<times> node" where
  "scenario_config = (''config'', Dir [(''settings.json'', File ''{}'')])"

definition scenario_paths :: "string \<Rightarrow> string \<Rightarrow> string list" where
  "scenario_paths pd name =
     (if name = ''config'' then [join (join pd ''config'') ''settings.json'']
      else if name = ''src'' then [join (join pd ''src'') ''main.py'']
      else [])"

section \<open>Basic facts\<close>

lemma example_self_simps:
  "project_dir (example_self dir) = dir"
  "model (example_self dir) = ''gpt-4o''"
  "language (example_self dir) = ''en''"
  by (simp_all add: example_self_def init_def Let_def)

lemma example_state_simps:
  "getcwd (example_state cwd nd) = cwd"
  "project_node (example_state cwd nd) = nd"
  "output_entries (example_state cwd nd) = Some []"
  "requirements_env (example_state cwd nd) = Some []"
  by (simp_all add: example_state_def)

lemma startswith_iff: "startswith s p = (\<exists>post. s = p @ post)"
  unfolding startswith_def
  by (metis append_eq_conv_conj append_take_drop_id)

lemma contains_iff: "contains s sub = (\<exists>pre post. s = pre @ sub @ post)"
proof (induction s)
  case Nil
  then show ?case by auto
next
  case (Cons c cs)
  show ?case
  proof
    assume "contains (c # cs) sub"
    then consider "startswith (c # cs) sub" | "contains cs sub" by auto
    then show "\<exists>pre post. c # cs = pre @ sub @ post"
    proof cases
      case 1
      then obtain post where "c # cs = sub @ post" by (auto simp: startswith_iff)
      then have "c # cs = [] @ sub @ post" by simp
      then show ?thesis by blast
    next
      case 2
      then obtain pre post where "cs = pre @ sub @ post" using Cons.IH by auto
      then have "c # cs = (c # pre) @ sub @ post" by simp
      then show ?thesis by blast
    qed
  next
    assume "\<exists>pre post. c # cs = pre @ sub @ post"
    then obtain pre post where e: "c # cs = pre @ sub @ post" by auto
    show "contains (c # cs) sub"
    proof (cases pre)
      case Nil
      with e have "startswith (c # cs) sub" by (auto simp: startswith_iff)
      then show ?thesis by simp
    next
      case (Cons a pre')
      with e have "cs = pre' @ sub @ post" by simp
      then show ?thesis using Cons.IH by auto
    qed
  qed
qed

lemma py_split_not_Nil: "py_split c s \<noteq> []"
  by (induction s) (auto split: list.splits)

lemma py_split_hd_prefix: "py_split c s = w # ws \<Longrightarrow> \<exists>post. s = w @ post"
  by (induction s arbitrary: w ws) (auto split: if_splits list.splits)

lemma py_split_segment: "x \<in> set (py_split c s) \<Longrightarrow> \<exists>pre post. s = pre @ x @ post"
proof (induction s arbitrary: x)
  case Nil
  then show ?case by auto
next
  case (Cons a s)
  obtain w ws where ws: "py_split c s = w # ws"
    using py_split_not_Nil by (cases "py_split c s") auto
  show ?case
  proof (cases "a = c")
    case True
    with Cons.prems have "x = [] \<or> x \<in> set (py_split c s)" by auto
    then show ?thesis
    proof
      assume "x = []"
      then have "a # s = [] @ x @ (a # s)" by simp
      then show ?thesis by blast
    next
      assume "x \<in> set (py_split c s)"
      then obtain pre post where "s = pre @ x @ post" using Cons.IH by blast
      then have "a # s = (a # pre) @ x @ post" by simp
      then show ?thesis by blast
    qed
  next
    case False
    with Cons.prems ws have "x = a # w \<or> x \<in> set ws" by auto
    then show ?thesis
    proof
      assume x: "x = a # w"
      obtain post where "s = w @ post" using py_split_hd_prefix[OF ws] by auto
      with x have "a # s = [] @ x @ post" by simp
      then show ?thesis by blast
    next
      assume "x \<in> set ws"
      then have "x \<in> set (py_split c s)" using ws by simp
      then obtain pre post where "s = pre @ x @ post" using Cons.IH by blast
      then have "a # s = (a # pre) @ x @ post" by simp
      then show ?thesis by blast
    qed
  qed
qed

lemma segment_contains: "x \<in> set (py_split c s) \<Longrightarrow> contains s x"
  using py_split_segment contains_iff by blast

lemma ignore_lines_map:
  assumes "\<forall>line \<in> set lines. strip line \<noteq> []"
  shows "ignore_lines acc lines =
           acc @ map ignore_pattern (filter (\<lambda>line. \<not> startswith line ''#'') lines)"
  using assms
proof (induction lines arbitrary: acc)
  case Nil
  then show ?case by simp
next
  case (Cons line lines)
  then have "line \<noteq> []" by (auto simp: strip_def)
  with Cons show ?case by simp
qed



subsection \<open>Paths\<close>

lemma py_split_append:
  "py_split c (a @ c # b) = py_split c a @ py_split c b"
proof (induction a)
  case Nil
  then show ?case by simp
next
  case (Cons x a)
  obtain w ws where "py_split c a = w # ws"
    using py_split_not_Nil by (cases "py_split c a") auto
  with Cons show ?case by simp
qed

lemma endswith_iff: "endswith s p = (\<exists>pre. s = pre @ p)"
proof
  assume "endswith s p"
  then have "s = take (length s - length p) s @ p"
    unfolding endswith_def by (metis append_take_drop_id)
  then show "\<exists>pre. s = pre @ p" ..
next
  assume "\<exists>pre. s = pre @ p"
  then show "endswith s p" by (auto simp: endswith_def)
qed

lemma dot_segment_Nil: "\<not> dot_segment []"
  by (simp add: dot_segment_def startswith_def)

lemma dot_segment_iff:
  "dot_segment p = (\<exists>part \<in> set (py_split CHR ''/'' p). startswith part ''.'')"
  by (simp add: dot_segment_def list_ex_iff)

lemma dot_segment_join:
  assumes "dot_segment a" and "\<not> startswith b ''/''"
  shows "dot_segment (join a b)"
proof -
  from assms(1) have ne: "a \<noteq> []" using dot_segment_Nil by auto
  from assms(1) obtain part where part: "part \<in> set (py_split CHR ''/'' a)"
    and dot: "startswith part ''.''"
    by (auto simp: dot_segment_iff)
  show ?thesis
  proof (cases "endswith a ''/''")
    case True
    then obtain a' where a: "a = a' @ ''/''" by (auto simp: endswith_iff)
    have "py_split CHR ''/'' a = py_split CHR ''/'' a' @ [[]]"
      unfolding a using py_split_append[of "CHR ''/''" a' "[]"] by simp
    with part dot have "part \<in> set (py_split CHR ''/'' a')"
      by (auto simp: startswith_def)
    moreover have "join a b = a' @ CHR ''/'' # b"
      using True assms(2) a by (simp add: join_def)
    ultimately show ?thesis
      using dot by (auto simp: dot_segment_iff py_split_append)
  next
    case False
    then have "join a b = a @ CHR ''/'' # b"
      using assms(2) ne by (simp add: join_def)
    then show ?thesis
      using part dot by (auto simp: dot_segment_iff py_split_append)
  qed
qed

lemma valid_name_not_abs: "valid_name name \<Longrightarrow> \<not> startswith name ''/''"
  by (cases name) (auto simp: valid_name_def startswith_def)

lemma is_ignored_dot:
  assumes "dot_segment filepath"
  shows "is_ignored st self filepath pats = Inr True"
proof -
  from assms have "filepath \<noteq> []" using dot_segment_Nil by auto
  then obtain rel where "relpath (getcwd st) filepath (project_dir self) = Inr rel"
    by (auto simp: relpath_def Let_def)
  with assms show ?thesis
    by (simp add: is_ignored_def dot_segment_def)
qed

lemma structure_items_all_ignored:
  assumes "dot_segment dir_path" and "\<forall>(item, nd) \<in> set items. valid_name item"
  shows "structure_items st self dir_path items indent_level pats = Inr []"
  using assms(2)
proof (induction items)
  case Nil
  then show ?case by simp
next
  case (Cons e items)
  obtain item nd where e: "e = (item, nd)" by (cases e)
  with Cons.prems have "valid_name item" by simp
  then have "is_ignored st self (join dir_path item) pats = Inr True"
    using assms(1) dot_segment_join is_ignored_dot valid_name_not_abs by blast
  with Cons e show ?case by simp
qed

lemma valid_entries_names:
  "valid_entries entries \<Longrightarrow> (name, nd) \<in> set entries \<Longrightarrow> valid_name name \<and> valid_node nd"
  by (induction entries) auto

lemma walk_roots_dot:
  "dot_segment top' \<Longrightarrow> valid_node nd \<Longrightarrow> (root, dirs, files) \<in> set (walk top' nd)
     \<Longrightarrow> dot_segment root \<and> (\<forall>name \<in> set dirs \<union> fst ` set files. valid_name name)"
  "dot_segment top' \<Longrightarrow> valid_entries entries \<Longrightarrow> (root, dirs, files) \<in> set (walk_dirs top' entries)
     \<Longrightarrow> dot_segment root \<and> (\<forall>name \<in> set dirs \<union> fst ` set files. valid_name name)"
proof (induction top' nd and top' entries arbitrary: root dirs files and root dirs files
    rule: walk_walk_dirs.induct)
  case (1 top' content)
  then show ?case by simp
next
  case (2 top' entries)
  from "2.prems"(3) consider
    (here) "root = top'"
       "dirs = concat (map (\<lambda>(name, nd). case nd of Dir es \<Rightarrow> [name] | File c \<Rightarrow> []) entries)"
       "files = concat (map (\<lambda>(name, nd). case nd of Dir es \<Rightarrow> [] | File c \<Rightarrow> [(name, c)]) entries)"
    | (below) "(root, dirs, files) \<in> set (walk_dirs top' entries)"
    by auto
  then show ?case
  proof cases
    case here
    have "valid_name name" if "name \<in> set dirs \<union> fst ` set files" for name
    proof -
      from that here obtain nd where "(name, nd) \<in> set entries"
        by (auto split: node.splits)
      then show ?thesis using "2.prems"(2) valid_entries_names by auto
    qed
    with here "2.prems"(1) show ?thesis by blast
  next
    case below
    then show ?thesis using "2.IH" "2.prems" by simp
  qed
next
  case (3 top')
  then show ?case by simp
next
  case (4 top' name nd entries)
  from "4.prems"(2) have v: "valid_name name" "valid_node nd" "valid_entries entries" by auto
  from "4.prems"(3) consider "(root, dirs, files) \<in> set (walk (join top' name) nd)"
    | "(root, dirs, files) \<in> set (walk_dirs top' entries)" by auto
  then show ?case
  proof cases
    case 1
    have "dot_segment (join top' name)"
      using "4.prems"(1) v(1) dot_segment_join valid_name_not_abs by blast
    then show ?thesis using "4.IH"(1) v(2) 1 by blast
  next
    case 2
    then show ?thesis using "4.IH"(2) "4.prems"(1) v(3) by blast
  qed
qed

lemma scripts_in_files_all_ignored:
  assumes "dot_segment root" and "\<forall>name \<in> fst ` set files. valid_name name"
  shows "scripts_in_files st self pats root files = Inr []"
  using assms(2)
proof (induction files)
  case Nil
  then show ?case by simp
next
  case (Cons e files)
  obtain fname content where e: "e = (fname, content)" by (cases e)
  with Cons.prems have "valid_name fname" by simp
  then have "is_ignored st self (join root fname) pats = Inr True"
    using assms(1) dot_segment_join is_ignored_dot valid_name_not_abs by blast
  with Cons e show ?case by simp
qed

lemma scripts_in_walk_all_ignored:
  assumes "\<forall>(root, dirs, files) \<in> set steps.
             dot_segment root \<and> (\<forall>name \<in> set dirs \<union> fst ` set files. valid_name name)"
  shows "scripts_in_walk st self pats steps = Inr []"
  using assms
proof (induction steps)
  case Nil
  then show ?case by simp
next
  case (Cons s steps)
  obtain root dirs files where s: "s = (root, dirs, files)" by (cases s)
  with Cons.prems have "scripts_in_files st self pats root files = Inr []"
    using scripts_in_files_all_ignored by auto
  with Cons s show ?case by simp
qed

lemma py_split_no_sep: "c \<notin> set s \<Longrightarrow> py_split c s = [s]"
  by (induction s) auto

lemma py_split_join:
  "xs \<noteq> [] \<Longrightarrow> \<forall>x \<in> set xs. c \<notin> set x \<Longrightarrow> py_split c (py_join [c] xs) = xs"
proof (induction "[c]" xs rule: py_join.induct)
  case 1
  then show ?case by simp
next
  case (2 x)
  then show ?case by (simp add: py_split_no_sep)
next
  case (3 x y ys)
  then show ?case by (simp add: py_split_append py_split_no_sep)
qed

lemma py_split_elems: "x \<in> set (py_split c s) \<Longrightarrow> c \<notin> set x"
proof (induction s arbitrary: x)
  case Nil
  then show ?case by simp
next
  case (Cons a s)
  obtain w ws where ws: "py_split c s = w # ws"
    using py_split_not_Nil by (cases "py_split c s") auto
  show ?case
  proof (cases "a = c")
    case True
    with Cons.prems have "x = [] \<or> x \<in> set (py_split c s)" by simp
    then show ?thesis using Cons.IH by auto
  next
    case False
    with Cons.prems ws have "x = a # w \<or> x \<in> set ws" by simp
    moreover have "c \<notin> set w" using Cons.IH[of w] ws by simp
    moreover have "x \<in> set ws \<Longrightarrow> c \<notin> set x" using Cons.IH[of x] ws by simp
    ultimately show ?thesis using False by auto
  qed
qed

lemma startswith_append: "startswith a p \<Longrightarrow> startswith (a @ b) p"
  by (auto simp: startswith_iff)

lemma startswith_slash: "startswith s ''/'' = (\<exists>t. s = CHR ''/'' # t)"
  by (cases s) (auto simp: startswith_def)

lemma endswith_slash: "endswith s ''/'' = (s \<noteq> [] \<and> last s = CHR ''/'')"
proof -
  have "(\<exists>pre. s = pre @ ''/'') = (s \<noteq> [] \<and> last s = CHR ''/'')"
    by (metis append_butlast_last_id last_snoc snoc_eq_iff_butlast)
  then show ?thesis by (simp add: endswith_iff)
qed

lemma join_sep_append: "b \<noteq> [] \<Longrightarrow> join_sep (a @ b) = join_sep b"
  by (simp add: join_sep_def endswith_slash)

lemma join_valid:
  "a \<noteq> [] \<Longrightarrow> valid_name n \<Longrightarrow> join a n = a @ join_sep a @ n"
  using valid_name_not_abs by (auto simp: join_def join_sep_def)

lemma join_sep_valid:
  assumes "valid_name n"
  shows "join_sep n = ''/''"
proof -
  from assms have "n \<noteq> []" and "CHR ''/'' \<notin> set n"
    by (auto simp: valid_name_def)
  then have "last n \<noteq> CHR ''/''"
    by (metis last_in_set)
  then show ?thesis
    by (simp add: join_sep_def endswith_slash)
qed

lemma foldl_join_valid:
  "a \<noteq> [] \<Longrightarrow> names \<noteq> [] \<Longrightarrow> \<forall>n \<in> set names. valid_name n
     \<Longrightarrow> foldl join a names = a @ join_sep a @ py_join ''/'' names"
proof (induction names arbitrary: a)
  case Nil
  then show ?case by simp
next
  case (Cons n names)
  then have n: "valid_name n" by simp
  then have nne: "n \<noteq> []" by (simp add: valid_name_def)
  have j: "join a n = a @ join_sep a @ n"
    using Cons.prems(1) n by (rule join_valid)
  show ?case
  proof (cases names)
    case Nil
    then show ?thesis using j by simp
  next
    case (Cons m ms)
    have "join_sep (join a n) = ''/''"
      unfolding j using join_sep_append[OF nne, of "a @ join_sep a"] join_sep_valid[OF n]
      by simp
    moreover have "foldl join (join a n) names
            = join a n @ join_sep (join a n) @ py_join ''/'' names"
      using Cons.IH[of "join a n"] Cons.prems Cons j by simp
    ultimately show ?thesis
      using Cons j by simp
  qed
qed

lemma normpath_comps_append:
  "normpath_comps ini acc (xs @ ys) = normpath_comps ini (normpath_comps ini acc xs) ys"
  by (induction xs arbitrary: acc) auto

lemma normpath_comps_valid:
  "\<forall>n \<in> set names. valid_name n \<Longrightarrow> normpath_comps ini acc names = acc @ names"
  by (induction names arbitrary: acc) (auto simp: valid_name_def)

lemma normpath_comps_plain:
  "\<forall>x \<in> set acc. plain_comp x \<Longrightarrow> \<forall>x \<in> set xs. CHR ''/'' \<notin> set x
     \<Longrightarrow> \<forall>x \<in> set (normpath_comps ini acc xs). plain_comp x"
proof (induction xs arbitrary: acc)
  case Nil
  then show ?case by simp
next
  case (Cons x xs)
  have xs: "\<forall>y \<in> set xs. CHR ''/'' \<notin> set y" using Cons.prems(2) by simp
  have b: "\<forall>y \<in> set (butlast acc). plain_comp y"
    using Cons.prems(1) by (meson in_set_butlastD)
  have a: "\<forall>y \<in> set (acc @ [x]). plain_comp y" if "x \<noteq> []"
    using Cons.prems that by (auto simp: plain_comp_def)
  have "normpath_comps ini acc (x # xs) = normpath_comps ini acc xs
      \<or> normpath_comps ini acc (x # xs) = normpath_comps ini (butlast acc) xs
      \<or> (x \<noteq> [] \<and> normpath_comps ini acc (x # xs) = normpath_comps ini (acc @ [x]) xs)"
    by simp
  then show ?case
    using Cons.IH[OF Cons.prems(1) xs] Cons.IH[OF b xs] Cons.IH[OF a xs]
    by metis
qed

lemma filter_split_slashes:
  "filter (\<lambda>x. x \<noteq> []) (py_split CHR ''/'' (replicate k CHR ''/'' @ s))
     = filter (\<lambda>x. x \<noteq> []) (py_split CHR ''/'' s)"
  by (induction k) auto

lemma split_join_plain:
  assumes "\<forall>x \<in> set xs. plain_comp x"
  shows "filter (\<lambda>x. x \<noteq> []) (py_split CHR ''/'' (py_join ''/'' xs)) = xs"
proof (cases xs)
  case Nil
  then show ?thesis by simp
next
  case (Cons y ys)
  then have "py_split CHR ''/'' (py_join ''/'' xs) = xs"
    using assms py_split_join[of xs "CHR ''/''"] by (auto simp: plain_comp_def)
  moreover have "filter (\<lambda>x. x \<noteq> []) xs = xs"
    using assms by (auto simp: plain_comp_def filter_id_conv)
  ultimately show ?thesis by simp
qed

text \<open>The components of the normal form of an absolute path.\<close>

lemma abs_normpath_comps:
  assumes "startswith p ''/''"
  shows "filter (\<lambda>x. x \<noteq> []) (py_split CHR ''/'' (normpath p))
           = normpath_comps True [] (py_split CHR ''/'' p)"
proof -
  let ?comps = "normpath_comps True [] (py_split CHR ''/'' p)"
  from assms have ne: "p \<noteq> []" by (auto simp: startswith_def)
  obtain k where k: "0 < k" "normpath p = replicate k CHR ''/'' @ py_join ''/'' ?comps"
  proof (cases "startswith p ''//'' \<and> \<not> startswith p ''///''")
    case True
    then have "normpath p = replicate 2 CHR ''/'' @ py_join ''/'' ?comps"
      using assms ne by (simp add: normpath_def Let_def)
    then show ?thesis using that[of 2] by simp
  next
    case False
    then have "normpath p = replicate 1 CHR ''/'' @ py_join ''/'' ?comps"
      using assms ne by (auto simp: normpath_def Let_def)
    then show ?thesis using that[of 1] by simp
  qed
  have "\<forall>x \<in> set ?comps. plain_comp x"
    using normpath_comps_plain[of "[]" "py_split CHR ''/'' p" True] py_split_elems by auto
  then show ?thesis
    unfolding k(2) filter_split_slashes by (rule split_join_plain)
qed

lemma commonprefix_append: "commonprefix xs (xs @ ys) = xs"
  by (induction xs) auto

text \<open>
  Appending names to an absolute path appends them to the components of its normal
  form.
\<close>

lemma comps_below:
  assumes names: "names \<noteq> []" "\<forall>n \<in> set names. valid_name n"
  shows "normpath_comps True [] (py_split CHR ''/'' (P @ join_sep P @ py_join ''/'' names))
           = normpath_comps True [] (py_split CHR ''/'' P) @ names"
proof -
  let ?J = "py_join ''/'' names"
  have slashfree: "\<forall>n \<in> set names. CHR ''/'' \<notin> set n"
    using names(2) by (auto simp: valid_name_def)
  have splitJ: "py_split CHR ''/'' ?J = names"
    using py_split_join[OF names(1), of "CHR ''/''"] slashfree by simp
  show ?thesis
  proof (cases "endswith P ''/''")
    case True
    then obtain P' where P': "P = P' @ ''/''" by (auto simp: endswith_iff)
    have s1: "py_split CHR ''/'' P = py_split CHR ''/'' P' @ [[]]"
      unfolding P' using py_split_append[of "CHR ''/''" P' "[]"] by simp
    have e: "P @ join_sep P @ ?J = P' @ CHR ''/'' # ?J"
      using True P' by (simp add: join_sep_def)
    have s2: "py_split CHR ''/'' (P @ join_sep P @ ?J) = py_split CHR ''/'' P' @ names"
      by (simp only: e py_split_append splitJ)
    show ?thesis
      unfolding s1 s2 normpath_comps_append
      using normpath_comps_valid[OF names(2)] by simp
  next
    case False
    then have e: "P @ join_sep P @ ?J = P @ CHR ''/'' # ?J"
      by (simp add: join_sep_def)
    have s2: "py_split CHR ''/'' (P @ join_sep P @ ?J) = py_split CHR ''/'' P @ names"
      by (simp only: e py_split_append splitJ)
    show ?thesis
      unfolding s2 normpath_comps_append
      using normpath_comps_valid[OF names(2)] by simp
  qed
qed

text \<open>
  What \<open>abspath\<close> normalises: the path itself when it is absolute, and the working
  directory followed by the path otherwise.
\<close>

lemma abspath_prefix:
  assumes "isabs cwd" and "p \<noteq> []"
  obtains pre where "abspath cwd p = normpath (pre @ p)" and "startswith (pre @ p) ''/''"
    and "\<And>sfx. abspath cwd (p @ sfx) = normpath (pre @ p @ sfx)"
proof (cases "isabs p")
  case True
  then obtain t where t: "p = CHR ''/'' # t" by (auto simp: isabs_def startswith_slash)
  have 1: "abspath cwd p = normpath ([] @ p)"
    using True by (simp add: abspath_def)
  have 2: "startswith ([] @ p) ''/''"
    using True by (simp add: isabs_def)
  have 3: "abspath cwd (p @ sfx) = normpath ([] @ p @ sfx)" for sfx
    using t by (simp add: abspath_def isabs_def startswith_slash)
  show ?thesis using that[OF 1 2 3] .
next
  case False
  from assms(1) obtain t where t: "cwd = CHR ''/'' # t"
    by (auto simp: isabs_def startswith_slash)
  obtain c u where p: "p = c # u" "c \<noteq> CHR ''/''"
    using False assms(2) by (cases p) (auto simp: isabs_def startswith_slash)
  let ?pre = "if endswith cwd ''/'' then cwd else cwd @ ''/''"
  have j: "join cwd (p @ sfx) = ?pre @ p @ sfx" for sfx
    using p t by (simp add: join_def startswith_slash)
  have 1: "abspath cwd p = normpath (?pre @ p)"
    using False j[of "[]"] by (simp add: abspath_def)
  have 2: "startswith (?pre @ p) ''/''"
    using t by (simp add: startswith_slash)
  have 3: "abspath cwd (p @ sfx) = normpath (?pre @ p @ sfx)" for sfx
    using p j[of sfx] by (simp add: abspath_def isabs_def startswith_slash)
  show ?thesis using that[OF 1 2 3] .
qed

text \<open>
  The relative path of a path below the project directory is the path of the names
  that were joined to it.
\<close>

lemma relpath_below:
  assumes cwd: "isabs cwd" and pd: "pd \<noteq> []"
    and names: "names \<noteq> []" "\<forall>n \<in> set names. valid_name n"
  shows "relpath cwd (foldl join pd names) pd = Inr (py_join ''/'' names)"
proof -
  let ?J = "py_join ''/'' names"
  let ?F = "foldl join pd names"
  have F: "?F = pd @ join_sep pd @ ?J"
    using foldl_join_valid[OF pd names] .
  have Fne: "?F \<noteq> []" using F pd by simp
  obtain pre where P: "abspath cwd pd = normpath (pre @ pd)"
    and absP: "startswith (pre @ pd) ''/''"
    and PF: "\<And>sfx. abspath cwd (pd @ sfx) = normpath (pre @ pd @ sfx)"
    using abspath_prefix[OF cwd pd] by blast
  let ?P = "pre @ pd"
  let ?N = "normpath_comps True [] (py_split CHR ''/'' ?P)"
  have sep: "join_sep ?P = join_sep pd"
    using pd by (rule join_sep_append)
  have PF': "abspath cwd ?F = normpath (?P @ join_sep ?P @ ?J)"
    unfolding F sep using PF[of "join_sep pd @ ?J"] by simp
  have absPF: "startswith (?P @ join_sep ?P @ ?J) ''/''"
    by (rule startswith_append[OF absP])
  have start_list: "filter (\<lambda>x. x \<noteq> []) (py_split CHR ''/'' (abspath cwd pd)) = ?N"
    unfolding P using abs_normpath_comps[OF absP] .
  have path_list: "filter (\<lambda>x. x \<noteq> []) (py_split CHR ''/'' (abspath cwd ?F)) = ?N @ names"
    unfolding PF' using abs_normpath_comps[OF absPF] comps_below[OF names, of ?P] by simp
  show ?thesis
    using Fne names(1)
    by (simp add: relpath_def Let_def start_list path_list commonprefix_append)
qed

subsection \<open>The walks below a project directory\<close>

lemma split_below:
  assumes names: "names \<noteq> []" "\<forall>n \<in> set names. valid_name n"
  shows "py_split CHR ''/'' (P @ join_sep P @ py_join ''/'' names)
           = (if endswith P ''/'' then butlast (py_split CHR ''/'' P)
              else py_split CHR ''/'' P) @ names"
proof -
  let ?J = "py_join ''/'' names"
  have slashfree: "\<forall>n \<in> set names. CHR ''/'' \<notin> set n"
    using names(2) by (auto simp: valid_name_def)
  have splitJ: "py_split CHR ''/'' ?J = names"
    using py_split_join[OF names(1), of "CHR ''/''"] slashfree by simp
  show ?thesis
  proof (cases "endswith P ''/''")
    case True
    then obtain P' where P': "P = P' @ ''/''" by (auto simp: endswith_iff)
    have s1: "py_split CHR ''/'' P = py_split CHR ''/'' P' @ [[]]"
      unfolding P' using py_split_append[of "CHR ''/''" P' "[]"] by simp
    have e: "P @ join_sep P @ ?J = P' @ CHR ''/'' # ?J"
      using True P' by (simp add: join_sep_def)
    have s2: "py_split CHR ''/'' (P @ join_sep P @ ?J) = py_split CHR ''/'' P' @ names"
      by (simp only: e py_split_append splitJ)
    show ?thesis using True s1 s2 by simp
  next
    case False
    then have e: "P @ join_sep P @ ?J = P @ CHR ''/'' # ?J"
      by (simp add: join_sep_def)
    have s2: "py_split CHR ''/'' (P @ join_sep P @ ?J) = py_split CHR ''/'' P @ names"
      by (simp only: e py_split_append splitJ)
    show ?thesis using False s2 by simp
  qed
qed

lemma no_dot_below:
  assumes "\<not> dot_segment pd" and "pd \<noteq> []"
    and names: "names \<noteq> []" "\<forall>n \<in> set names. valid_name n"
    and nodot: "\<forall>n \<in> set names. \<not> startswith n ''.''"
  shows "\<not> dot_segment (foldl join pd names)"
proof -
  have F: "foldl join pd names = pd @ join_sep pd @ py_join ''/'' names"
    using foldl_join_valid[OF assms(2) names] .
  have "\<forall>part \<in> set (py_split CHR ''/'' pd). \<not> startswith part ''.''"
    using assms(1) by (simp add: dot_segment_iff)
  moreover have "set (butlast (py_split CHR ''/'' pd)) \<subseteq> set (py_split CHR ''/'' pd)"
    by (meson in_set_butlastD subsetI)
  ultimately show ?thesis
    unfolding F dot_segment_iff split_below[OF names] using nodot by auto
qed

lemma is_ignored_total:
  assumes "filepath \<noteq> []"
  shows "\<exists>b. is_ignored st self filepath pats = Inr b"
proof -
  from assms obtain rel where "relpath (getcwd st) filepath (project_dir self) = Inr rel"
    by (auto simp: relpath_def Let_def)
  then show ?thesis
    by (auto simp: is_ignored_def)
qed

lemma is_ignored_below:
  assumes "isabs (getcwd st)" and "project_dir self \<noteq> []" and "\<not> dot_segment (project_dir self)"
    and names: "names \<noteq> []" "\<forall>n \<in> set names. valid_name n"
    and nodot: "\<forall>n \<in> set names. \<not> startswith n ''.''"
    and nocache: "\<not> contains (py_join ''/'' names) ''__pycache__''"
  shows "is_ignored st self (foldl join (project_dir self) names) [] = Inr False"
  using relpath_below[OF assms(1,2) names] no_dot_below[OF assms(3,2) names nodot] nocache
  by (simp add: is_ignored_def dot_segment_def)

lemma join_nonempty: "a \<noteq> [] \<Longrightarrow> join a b \<noteq> []"
  by (auto simp: join_def startswith_slash)

lemma scripts_in_files_irrelevant:
  assumes "root \<noteq> []"
    and "\<forall>(f, c) \<in> set files. \<not> (endswith f ''.py'' \<or> endswith f ''.sh''
            \<or> endswith f ''.bash'' \<or> endswith f ''.json'')"
  shows "scripts_in_files st self pats root files = Inr []"
  using assms(2)
proof (induction files)
  case Nil
  then show ?case by simp
next
  case (Cons e files)
  obtain f c where e: "e = (f, c)" by (cases e)
  obtain b where "is_ignored st self (join root f) pats = Inr b"
    using is_ignored_total[OF join_nonempty[OF assms(1)]] by blast
  with Cons e show ?case by simp
qed

lemma scripts_in_walk_append:
  "scripts_in_walk st self pats xs = Inr a \<Longrightarrow> scripts_in_walk st self pats ys = Inr b
     \<Longrightarrow> scripts_in_walk st self pats (xs @ ys) = Inr (a @ b)"
proof (induction xs arbitrary: a)
  case Nil
  then show ?case by simp
next
  case (Cons x xs)
  obtain root dirs files where x: "x = (root, dirs, files)" by (cases x)
  from Cons.prems(1) x obtain s1 a1 where
    s1: "scripts_in_files st self pats root files = Inr s1"
    and a1: "scripts_in_walk st self pats xs = Inr a1" and a: "a = s1 @ a1"
    by (auto split: sum.splits)
  from Cons.IH[OF a1 Cons.prems(2)] s1 a x show ?case by simp
qed

lemma scripts_in_walk_dirs:
  assumes "\<forall>(name, nd) \<in> set entries.
             scripts_in_walk st self pats (walk (join top' name) nd) = Inr (g name)"
  shows "scripts_in_walk st self pats (walk_dirs top' entries)
           = Inr (concat (map g (map fst entries)))"
  using assms
proof (induction entries)
  case Nil
  then show ?case by simp
next
  case (Cons e entries)
  obtain name nd where e: "e = (name, nd)" by (cases e)
  have 1: "scripts_in_walk st self pats (walk (join top' name) nd) = Inr (g name)"
    using Cons.prems e by simp
  have 2: "scripts_in_walk st self pats (walk_dirs top' entries)
             = Inr (concat (map g (map fst entries)))"
    using Cons by simp
  show ?case
    using scripts_in_walk_append[OF 1 2] e by simp
qed

lemma contains_lower_config: "contains (lower (join pd ''config'')) ''config''"
proof -
  have "\<exists>pre. join pd ''config'' = pre @ ''config''"
    by (auto simp: join_def startswith_def)
  then obtain pre where "join pd ''config'' = pre @ ''config''" by blast
  then have "lower (join pd ''config'') = lower pre @ lower ''config'' @ []"
    by (simp add: lower_def)
  moreover have "lower ''config'' = ''config''" by code_simp
  ultimately show ?thesis unfolding contains_iff by metis
qed

lemma two_elems:
  assumes "set xs = {a, b}" and "distinct xs" and "a \<noteq> b"
  shows "xs = [a, b] \<or> xs = [b, a]"
proof -
  have "length xs = 2"
    using distinct_card[OF assms(2)] assms(1,3) by simp
  then obtain x y where xs: "xs = [x, y]"
    by (metis (no_types, opaque_lifting) One_nat_def Suc_1 Suc_length_conv length_0_conv)
  with assms(1) have "{x, y} = {a, b}" by simp
  then show ?thesis using xs by (auto simp: doubleton_eq_iff)
qed

subsection \<open>Replies that carry a list\<close>

lemma tapp_simps:
  "tapp [] r = r"
  "tcons t (tapp ts r) = tapp (t # ts) r"
  "tapp ts (tapp us r) = tapp (ts @ us) r"
  "tapp ts (Some us) = Some (ts @ us)"
  "tcons t r = tapp [t] r"
  by (auto simp: tapp_def tcons_def split: option.splits)

lemma scanstring_plain:
  "plain_text s \<Longrightarrow> scanstring (s @ CHR 0x22 # rest) = Some (ustr s, rest)"
proof (induction s)
  case Nil
  then show ?case by (simp add: ustr_def)
next
  case (Cons c s)
  then show ?case by (simp add: plain_text_def cons_char_def ustr_def)
qed

lemma json_lex_quoted:
  "plain_text s \<Longrightarrow>
     json_lex (quoted s @ rest) = tapp [TValue (JString (ustr s))] (json_lex rest)"
  by (simp add: quoted_def scanstring_plain tapp_simps(5))

lemma json_lex_space: "json_lex (CHR '' '' # rest) = json_lex rest"
  by simp

lemma json_lex_structural:
  "json_lex (CHR ''{'' # rest) = tapp [TLBrace] (json_lex rest)"
  "json_lex (CHR ''}'' # rest) = tapp [TRBrace] (json_lex rest)"
  "json_lex (CHR ''['' # rest) = tapp [TLBracket] (json_lex rest)"
  "json_lex (CHR '']'' # rest) = tapp [TRBracket] (json_lex rest)"
  "json_lex (CHR '':'' # rest) = tapp [TColon] (json_lex rest)"
  "json_lex (CHR '','' # rest) = tapp [TComma] (json_lex rest)"
  by (simp_all add: tapp_simps(5))

lemma py_join_quoted:
  "py_join '', '' (map quoted (e # es)) = quoted e @ concat (map (\<lambda>x. '', '' @ quoted x) es)"
  by (induction es arbitrary: e) auto

lemma json_lex_more:
  "list_all plain_text es \<Longrightarrow>
     json_lex (concat (map (\<lambda>x. '', '' @ quoted x) es) @ rest)
       = tapp (concat (map (\<lambda>x. [TComma, TValue (JString (ustr x))]) es)) (json_lex rest)"
proof (induction es)
  case Nil
  then show ?case by (simp add: tapp_simps)
next
  case (Cons e es)
  have "json_lex (concat (map (\<lambda>x. '', '' @ quoted x) (e # es)) @ rest)
      = json_lex (CHR '','' # CHR '' '' # quoted e @ concat (map (\<lambda>x. '', '' @ quoted x) es) @ rest)"
    by simp
  also have "\<dots> = tapp [TComma] (json_lex (quoted e @ concat (map (\<lambda>x. '', '' @ quoted x) es) @ rest))"
    by (simp only: json_lex_structural json_lex_space)
  also have "\<dots> = tapp [TComma] (tapp [TValue (JString (ustr e))]
      (json_lex (concat (map (\<lambda>x. '', '' @ quoted x) es) @ rest)))"
    using Cons.prems by (simp add: json_lex_quoted)
  finally show ?case
    using Cons by (simp add: tapp_simps)
qed

lemma run_tokens_more:
  "run_tokens PAfter (FArray acc # stack)
       (concat (map (\<lambda>x. [TComma, TValue (f x)]) es) @ rest)
     = run_tokens PAfter (FArray (acc @ map f es) # stack) rest"
  by (induction es arbitrary: acc) simp_all

lemma output_str_reply:
  "output_str (requirements_reply entries) =
     '' {'' @ quoted ''requirements'' @ '': ['' @ py_join '', '' (map quoted entries) @ '']} ''"
  by (simp add: output_str_def requirements_reply_def lstrip_def rstrip_def)

lemma plain_requirements: "plain_text ''requirements''"
  by code_simp

lemma fenced_requirements_parse:
  assumes "list_all plain_text entries"
  shows "json_loads (output_str (requirements_reply entries)) =
           Inr (JObject [(ustr ''requirements'',
                          JArray (map (\<lambda>e. JString (ustr e)) entries))])"
proof -
  let ?req = "JString (ustr ''requirements'')"
  let ?f = "\<lambda>e. JString (ustr e)"
  have head: "json_lex ('' {'' @ quoted ''requirements'' @ '': ['' @ rest)
      = tapp [TLBrace, TValue ?req, TColon, TLBracket] (json_lex rest)" for rest
  proof -
    have "json_lex ('' {'' @ quoted ''requirements'' @ '': ['' @ rest)
        = tapp [TLBrace] (json_lex (quoted ''requirements'' @ '': ['' @ rest))"
      by (simp only: append_Cons append_Nil json_lex_space json_lex_structural)
    also have "\<dots> = tapp [TLBrace] (tapp [TValue ?req] (json_lex ('': ['' @ rest)))"
      by (simp only: json_lex_quoted[OF plain_requirements])
    also have "json_lex ('': ['' @ rest) = tapp [TColon] (tapp [TLBracket] (json_lex rest))"
      by (simp only: append_Cons append_Nil json_lex_space json_lex_structural)
    finally show ?thesis by (simp add: tapp_simps)
  qed
  have tail: "json_lex '']} '' = Some [TRBracket, TRBrace]"
    by code_simp
  show ?thesis
  proof (cases entries)
    case Nil
    have "json_lex (output_str (requirements_reply entries))
        = Some [TLBrace, TValue ?req, TColon, TLBracket, TRBracket, TRBrace]"
      unfolding output_str_reply Nil using head[of "'']} ''"] tail
      by (simp add: tapp_simps)
    then show ?thesis using Nil by (simp add: json_loads_def)
  next
    case (Cons e es)
    then have pe: "plain_text e" and pes: "list_all plain_text es" using assms by simp_all
    let ?more = "concat (map (\<lambda>x. [TComma, TValue (?f x)]) es)"
    have "json_lex (py_join '', '' (map quoted entries) @ '']} '')
        = tapp (TValue (?f e) # ?more) (Some [TRBracket, TRBrace])"
      unfolding Cons py_join_quoted
      using json_lex_quoted[OF pe] json_lex_more[OF pes, of "'']} ''"] tail
      by (simp add: tapp_simps)
    then have lex: "json_lex (output_str (requirements_reply entries))
        = Some ([TLBrace, TValue ?req, TColon, TLBracket, TValue (?f e)] @ ?more
                @ [TRBracket, TRBrace])"
      unfolding output_str_reply
      using head[of "py_join '', '' (map quoted entries) @ '']} ''"]
      by (simp add: tapp_simps)
    have "run_tokens PValue []
            ([TLBrace, TValue ?req, TColon, TLBracket, TValue (?f e)] @ ?more
             @ [TRBracket, TRBrace])
        = run_tokens PAfter
            [FArray [?f e], FKey (ustr ''requirements''), FObject []]
            (?more @ [TRBracket, TRBrace])"
      by simp
    also have "\<dots> = run_tokens PAfter
            [FArray ([?f e] @ map ?f es), FKey (ustr ''requirements''), FObject []]
            [TRBracket, TRBrace]"
      by (rule run_tokens_more)
    also have "\<dots> = Some (JObject [(ustr ''requirements'', JArray (map ?f entries))])"
      using Cons by simp
    finally show ?thesis
      using lex by (simp add: json_loads_def)
  qed
qed

section \<open>The claims\<close>




text \<open>
  C8. When the output directory exists and none of its entries is a prior artifact
  (\<open>requirements.txt\<close>, \<open>PROJECT_STRUCTURE.md\<close>, \<open>SCRIPT_DESCRIPTION.json\<close> or a name
  containing \<open>README\<close>), \<open>generate_readme\<close> returns normally, logs one error and writes
  no file, whatever the collaborator would answer.
\<close>

theorem readme_without_artifacts:
  assumes "output_entries st = Some files"
    and "\<forall>(file, nd) \<in> set files. \<not> is_dependency_file file"
  shows "generate_readme get_model_answer st self =
           Inr ([LogError (''No dependency files found. Please run '' @ [CHR 0x27]
                           @ ''generate_dependency'' @ [CHR 0x27] @ '' first.'') None], [])"
proof -
  have loop: "dependency_files acc files = Inr acc" for acc
    using assms(2) by (induction files arbitrary: acc) auto
  have "get_dependency_content st self = Inr []"
    using assms(1) loop by (simp add: get_dependency_content_def)
  then show ?thesis by (simp add: generate_readme_def)
qed

theorem readme_without_artifacts_witness:
  "output_entries (example_state ''/home/user'' None) = Some []
   \<and> generate_readme (replies ''# Demo'') (example_state ''/home/user'' None)
        (example_self ''/home/user/proj'') =
       Inr ([LogError (''No dependency files found. Please run '' @ [CHR 0x27]
                       @ ''generate_dependency'' @ [CHR 0x27] @ '' first.'') None], [])
   \<and> output_entries (example_state ''/home/user'' None
         \<lparr>output_entries := Some [(''notes.txt'', File ''to do''), (''logs'', Dir [])]\<rparr>)
       = Some [(''notes.txt'', File ''to do''), (''logs'', Dir [])]
   \<and> \<not> is_dependency_file ''notes.txt'' \<and> \<not> is_dependency_file ''logs''
   \<and> generate_readme (replies ''# Demo'')
        (example_state ''/home/user'' None
           \<lparr>output_entries := Some [(''notes.txt'', File ''to do''), (''logs'', Dir [])]\<rparr>)
        (example_self ''/home/user/proj'') =
       Inr ([LogError (''No dependency files found. Please run '' @ [CHR 0x27]
                       @ ''generate_dependency'' @ [CHR 0x27] @ '' first.'') None], [])"
proof -
  have a: "output_entries (example_state ''/home/user'' None) = Some []"
    by (simp add: example_state_def)
  have b: "\<forall>(file, nd) \<in> set ([] :: (string \<times> node) list). \<not> is_dependency_file file"
    by simp
  have c: "output_entries (example_state ''/home/user'' None
         \<lparr>output_entries := Some [(''notes.txt'', File ''to do''), (''logs'', Dir [])]\<rparr>)
       = Some [(''notes.txt'', File ''to do''), (''logs'', Dir [])]"
    by simp
  have n: "\<not> is_dependency_file ''notes.txt''" "\<not> is_dependency_file ''logs''"
    by (simp_all add: is_dependency_file_def startswith_def)
  then have d: "\<forall>(file, nd) \<in> set [(''notes.txt'', File ''to do''), (''logs'', Dir [])].
         \<not> is_dependency_file file"
    by simp
  show ?thesis
    using a c n readme_without_artifacts[OF a b] readme_without_artifacts[OF c d]
    by blast
qed

text \<open>
  C9. A segment of the path that starts with a dot makes \<open>is_ignored\<close> true for every
  list of patterns, and so does a segment \<open>__pycache__\<close> of the relative path: adding
  or removing patterns cannot change the verdict for such a path. A pattern that
  matches the relative path makes it true as well. Each of the three checks suffices
  alone.
\<close>

theorem is_ignored_unconditional:
  "(dot_segment filepath \<longrightarrow> (\<forall>pats. is_ignored st self filepath pats = Inr True))
   \<and> (relpath (getcwd st) filepath (project_dir self) = Inr rel
        \<and> ''__pycache__'' \<in> set (py_split CHR ''/'' rel)
      \<longrightarrow> (\<forall>pats. is_ignored st self filepath pats = Inr True))
   \<and> (relpath (getcwd st) filepath (project_dir self) = Inr rel
        \<and> (\<exists>pattern \<in> set pats. fnmatch rel pattern)
      \<longrightarrow> is_ignored st self filepath pats = Inr True)"
  using is_ignored_dot[of filepath st self] segment_contains[of "''__pycache__''" "CHR ''/''" rel]
  by (auto simp: is_ignored_def list_ex_iff)

theorem is_ignored_unconditional_witness:
  "dot_segment ''/home/user/proj/.git/config''
   \<and> is_ignored (example_state ''/home/user'' None) (example_self ''/home/user/proj'')
        ''/home/user/proj/.git/config'' [] = Inr True
   \<and> relpath ''/home/user'' ''/home/user/proj/pkg/__pycache__/m.pyc'' ''/home/user/proj''
        = Inr ''pkg/__pycache__/m.pyc''
   \<and> ''__pycache__'' \<in> set (py_split CHR ''/'' ''pkg/__pycache__/m.pyc'')
   \<and> is_ignored (example_state ''/home/user'' None) (example_self ''/home/user/proj'')
        ''/home/user/proj/pkg/__pycache__/m.pyc'' [''*.txt''] = Inr True
   \<and> relpath ''/home/user'' ''/home/user/proj/notes.txt'' ''/home/user/proj'' = Inr ''notes.txt''
   \<and> (\<exists>pattern \<in> set [''*.txt'']. fnmatch ''notes.txt'' pattern)
   \<and> is_ignored (example_state ''/home/user'' None) (example_self ''/home/user/proj'')
        ''/home/user/proj/notes.txt'' [''*.txt''] = Inr True"
proof -
  let ?st = "example_state ''/home/user'' None" and ?self = "example_self ''/home/user/proj''"
  have r2: "relpath (getcwd ?st) ''/home/user/proj/pkg/__pycache__/m.pyc'' (project_dir ?self)
      = Inr ''pkg/__pycache__/m.pyc''"
    unfolding example_self_simps example_state_simps by code_simp
  have r3: "relpath (getcwd ?st) ''/home/user/proj/notes.txt'' (project_dir ?self)
      = Inr ''notes.txt''"
    unfolding example_self_simps example_state_simps by code_simp
  have d: "dot_segment ''/home/user/proj/.git/config''" by code_simp
  have c: "''__pycache__'' \<in> set (py_split CHR ''/'' ''pkg/__pycache__/m.pyc'')" by code_simp
  have m: "\<exists>pattern \<in> set [''*.txt'']. fnmatch ''notes.txt'' pattern" by code_simp
  show ?thesis
    using is_ignored_unconditional[where filepath = "''/home/user/proj/.git/config''"
        and st = ?st and self = ?self and pats = "[]"]
      is_ignored_unconditional[where filepath = "''/home/user/proj/pkg/__pycache__/m.pyc''"
        and st = ?st and self = ?self and rel = "''pkg/__pycache__/m.pyc''"
        and pats = "[''*.txt'']"]
      is_ignored_unconditional[where filepath = "''/home/user/proj/notes.txt''"
        and st = ?st and self = ?self and rel = "''notes.txt''" and pats = "[''*.txt'']"]
      r2 r3 d c m
    unfolding example_self_simps example_state_simps
    by blast
qed

text \<open>
  C1, at a failing input. The project holds \<open>.gitignore\<close> with the line \<open>build\<close> and the
  script \<open>build/out.py\<close>. The pattern \<open>build\<close> matches the directory, so the structural
  walk prunes it and lists nothing; it does not match \<open>build/out.py\<close>, which the flat
  collection tests alone, without its directory, and returns.
\<close>

theorem pruned_directory_files_collected:
  "load_ignore_files (example_state ''/home/user'' (Some build_tree))
     (example_self ''/home/user/proj'') = Inr [''build'']
   \<and> is_ignored (example_state ''/home/user'' (Some build_tree)) (example_self ''/home/user/proj'')
        ''/home/user/proj/build'' [''build''] = Inr True
   \<and> is_ignored (example_state ''/home/user'' (Some build_tree)) (example_self ''/home/user/proj'')
        ''/home/user/proj/build/out.py'' [''build''] = Inr False
   \<and> generate_project_structure (example_state ''/home/user'' (Some build_tree))
        (example_self ''/home/user/proj'') ''/home/user/proj'' (Some build_tree) 0 None = Inr []
   \<and> find_all_scripts_and_config_files (example_state ''/home/user'' (Some build_tree))
        (example_self ''/home/user/proj'') = Inr [''/home/user/proj/build/out.py'']"
  by code_simp

text \<open>
  C2, as the code has it by design, for an ignore file without blank lines: a line
  that begins with \<open>#\<close> gives no pattern, and every other line gives one pattern, in
  order: the line without its surrounding whitespace and without all of its leading
  path separators, with \<open>*\<close> appended when what is left ends with a separator.
\<close>

theorem load_ignore_files_lines:
  assumes "project_root st self = Some (Dir entries)"
    and "map_of entries ''.gitignore'' = Some (File content)"
    and "\<forall>line \<in> set (file_lines (universal_newlines content)). strip line \<noteq> []"
  shows "load_ignore_files st self =
           Inr (map ignore_pattern
                  (filter (\<lambda>line. \<not> startswith line ''#'')
                     (file_lines (universal_newlines content))))"
  using assms ignore_lines_map[of "file_lines (universal_newlines content)" "[]"]
  by (simp add: load_ignore_files_def load_ignore_text_def)

theorem load_ignore_files_lines_witness:
  "load_ignore_files
     (gitignore_state (''# build output'' @ [CHR 0x0A] @ ''  /dist/  '' @ [CHR 0x0A] @ ''*.log''))
     (example_self ''/home/user/proj'') = Inr [''dist/*'', ''*.log'']"
proof -
  let ?content = "''# build output'' @ [CHR 0x0A] @ ''  /dist/  '' @ [CHR 0x0A] @ ''*.log''"
  let ?entries = "[(''.gitignore'', File ?content)]"
  have a: "project_root (gitignore_state ?content) (example_self ''/home/user/proj'')
             = Some (Dir ?entries)"
    by (simp add: project_root_def gitignore_state_def example_self_simps example_state_simps)
  have b: "map_of ?entries ''.gitignore'' = Some (File ?content)" by simp
  have l: "file_lines (universal_newlines ?content)
           = [''# build output'' @ [CHR 0x0A], ''  /dist/  '' @ [CHR 0x0A], ''*.log'']"
    by code_simp
  have c: "\<forall>line \<in> set (file_lines (universal_newlines ?content)). strip line \<noteq> []"
    unfolding l by code_simp
  have v: "map ignore_pattern (filter (\<lambda>line. \<not> startswith line ''#'')
             (file_lines (universal_newlines ?content))) = [''dist/*'', ''*.log'']"
    unfolding l by code_simp
  show ?thesis
    using load_ignore_files_lines[OF a b c] unfolding v .
qed

text \<open>
  C2, as stated, fails: for the line \<open>//cache\<close> the code strips both leading separators
  and gives \<open>cache\<close>, where the claim's rule (a single leading separator) gives \<open>/cache\<close>.
\<close>

theorem load_ignore_files_counterexample:
  "load_ignore_files (gitignore_state ''//cache'') (example_self ''/home/user/proj'')
     = Inr [''cache'']
   \<and> spec_ignore_patterns ''//cache'' = [''/cache'']"
  by code_simp

text \<open>
  A blank line is not skipped: the test \<open>if line\<close> sees the line with its newline, which
  is not empty, and the line gives the empty pattern.
\<close>

lemma load_ignore_files_blank_line:
  "load_ignore_files (gitignore_state (''a'' @ [CHR 0x0A, CHR 0x0A] @ ''b'' @ [CHR 0x0A]))
     (example_self ''/home/user/proj'') = Inr [''a'', [], ''b'']
   \<and> spec_ignore_patterns (''a'' @ [CHR 0x0A, CHR 0x0A] @ ''b'' @ [CHR 0x0A]) = [''a'', ''b'']"
  by code_simp



text \<open>
  C7, as the code has it. When the environment listing and the scripts were read and
  the collaborator replied, and the reply with its fence stripped is not JSON, or is
  JSON but not an object with the key \<open>requirements\<close>, then \<open>parse_requirements_output\<close>
  logs the failure and returns the empty list, and \<open>generate_project_requirements\<close>
  completes with the empty list. No exception leaves \<open>parse_requirements_output\<close>: its
  result is a value for every reply.
\<close>

theorem parse_failure_gives_empty:
  assumes "generate_environment_requirements st = Inr environment_requirements"
    and "find_scripts_with_text st self = Inr scripts"
    and "get_model_answer (model self) (requirements_prompt environment_requirements scripts)
           (config_dir self) = Inr output"
    and "json_loads (output_str output) = Inl e
         \<or> (\<exists>v. json_loads (output_str output) = Inr v
                \<and> (\<forall>pairs. v = JObject pairs \<longrightarrow> map_of pairs (ustr ''requirements'') = None))"
  shows "\<exists>err. parse_requirements_output output =
                 ([LogError (''Error parsing requirements output: '' @ output @ '', '')
                     (Some err)], JArray [])
             \<and> generate_project_requirements get_model_answer st self =
                 Inr ([LogError (''Error parsing requirements output: '' @ output @ '', '')
                         (Some err)], JArray [])"
proof -
  from assms(4) obtain err where
    "(case json_loads (output_str output) of
        Inl e \<Rightarrow> Inl e
      | Inr output_dict \<Rightarrow> subscript output_dict (ustr ''requirements'')) = Inl err"
  proof
    assume "json_loads (output_str output) = Inl e"
    then show ?thesis using that by simp
  next
    assume "\<exists>v. json_loads (output_str output) = Inr v
                \<and> (\<forall>pairs. v = JObject pairs \<longrightarrow> map_of pairs (ustr ''requirements'') = None)"
    then obtain v where v: "json_loads (output_str output) = Inr v"
      and k: "\<forall>pairs. v = JObject pairs \<longrightarrow> map_of pairs (ustr ''requirements'') = None"
      by blast
    from k have "\<exists>err. subscript v (ustr ''requirements'') = Inl err"
      by (cases v) auto
    with v show ?thesis using that by auto
  qed
  then have "parse_requirements_output output =
        ([LogError (''Error parsing requirements output: '' @ output @ '', '') (Some err)],
         JArray [])"
    by (simp add: parse_requirements_output_def)
  then show ?thesis
    using assms(1-3) by (auto simp: generate_project_requirements_def)
qed

theorem parse_failure_gives_empty_witness:
  "json_loads (output_str ''not json'') = Inl JSONDecodeError
   \<and> parse_requirements_output ''not json'' =
       ([LogError (''Error parsing requirements output: '' @ ''not json'' @ '', '')
           (Some JSONDecodeError)], JArray [])
   \<and> generate_project_requirements (replies ''not json'')
        (example_state ''/home/user'' (Some build_tree)) (example_self ''/home/user/proj'') =
       Inr ([LogError (''Error parsing requirements output: '' @ ''not json'' @ '', '')
               (Some JSONDecodeError)], JArray [])"
proof -
  let ?st = "example_state ''/home/user'' (Some build_tree)"
  let ?self = "example_self ''/home/user/proj''"
  have a: "generate_environment_requirements ?st = Inr []"
    by (simp add: generate_environment_requirements_def example_state_simps)
  have b: "find_scripts_with_text ?st ?self
             = Inr [(''/home/user/proj/build/out.py'', ''print(1)'')]"
    by code_simp
  have c: "replies ''not json'' (model ?self)
             (requirements_prompt [] [(''/home/user/proj/build/out.py'', ''print(1)'')])
             (config_dir ?self) = Inr ''not json''"
    by (simp add: replies_def)
  have j: "json_loads (output_str ''not json'') = Inl JSONDecodeError" by code_simp
  then have d: "json_loads (output_str ''not json'') = Inl JSONDecodeError
         \<or> (\<exists>v. json_loads (output_str ''not json'') = Inr v
                \<and> (\<forall>pairs. v = JObject pairs \<longrightarrow> map_of pairs (ustr ''requirements'') = None))"
    by simp
  have p: "parse_requirements_output ''not json'' =
       ([LogError (''Error parsing requirements output: '' @ ''not json'' @ '', '')
           (Some JSONDecodeError)], JArray [])"
    using j by (simp add: parse_requirements_output_def)
  from parse_failure_gives_empty[where get_model_answer = "replies ''not json''", OF a b c d] p j
  show ?thesis
    by auto
qed

text \<open>
  C7, as stated, fails: the reply \<open>{"requirements": "numpy==1.26.0"}\<close> does not have the
  expected shape (its \<open>requirements\<close> is a string, not a list), yet nothing is logged and
  the string is returned, not the empty list.
\<close>

theorem parse_failure_counterexample:
  "parse_requirements_output string_for_list = ([], JString (ustr ''numpy==1.26.0''))"
  by code_simp

text \<open>
  C4, as the code has it. When the environment listing and the scripts were read and
  the collaborator replied: if the reply with its fence stripped parses to an object,
  the result of \<open>generate_project_requirements\<close> is the value of its key \<open>requirements\<close>
  as it is, and nothing is logged; in particular, for every list of entries (plain
  texts), the fenced reply that carries the list gives back exactly this list: no
  entry is removed, merged or reordered.
\<close>

theorem requirements_returned_unchanged:
  assumes "generate_environment_requirements st = Inr environment_requirements"
    and "find_scripts_with_text st self = Inr scripts"
    and "get_model_answer (model self) (requirements_prompt environment_requirements scripts)
           (config_dir self) = Inr answer"
  shows "(json_loads (output_str answer) = Inr (JObject pairs)
            \<and> map_of pairs (ustr ''requirements'') = Some deps
          \<longrightarrow> generate_project_requirements get_model_answer st self = Inr ([], deps))
       \<and> (list_all plain_text entries \<and> answer = requirements_reply entries
          \<longrightarrow> generate_project_requirements get_model_answer st self
                = Inr ([], JArray (map (\<lambda>e. JString (ustr e)) entries)))"
  using assms fenced_requirements_parse[of entries]
  by (simp add: generate_project_requirements_def parse_requirements_output_def)

theorem requirements_returned_unchanged_witness:
  "list_all plain_text [''numpy==1.0'', ''numpy==2.0'']
   \<and> fenced_duplicates = requirements_reply [''numpy==1.0'', ''numpy==2.0'']
   \<and> json_loads (output_str fenced_duplicates) =
     Inr (JObject [(ustr ''requirements'',
            JArray [JString (ustr ''numpy==1.0''), JString (ustr ''numpy==2.0'')])])
   \<and> generate_project_requirements (replies fenced_duplicates)
        (example_state ''/home/user'' (Some build_tree)) (example_self ''/home/user/proj'') =
       Inr ([], JArray [JString (ustr ''numpy==1.0''), JString (ustr ''numpy==2.0'')])"
proof -
  let ?st = "example_state ''/home/user'' (Some build_tree)"
  let ?self = "example_self ''/home/user/proj''"
  let ?deps = "JArray [JString (ustr ''numpy==1.0''), JString (ustr ''numpy==2.0'')]"
  have a: "generate_environment_requirements ?st = Inr []"
    by (simp add: generate_environment_requirements_def example_state_simps)
  have b: "find_scripts_with_text ?st ?self
             = Inr [(''/home/user/proj/build/out.py'', ''print(1)'')]"
    by code_simp
  have c: "replies fenced_duplicates (model ?self)
             (requirements_prompt [] [(''/home/user/proj/build/out.py'', ''print(1)'')])
             (config_dir ?self) = Inr fenced_duplicates"
    by (simp add: replies_def)
  have j: "json_loads (output_str fenced_duplicates) =
             Inr (JObject [(ustr ''requirements'', ?deps)])"
    by code_simp
  have k: "map_of [(ustr ''requirements'', ?deps)] (ustr ''requirements'') = Some ?deps"
    by simp
  have p: "list_all plain_text [''numpy==1.0'', ''numpy==2.0'']" by code_simp
  have r: "fenced_duplicates = requirements_reply [''numpy==1.0'', ''numpy==2.0'']"
    by code_simp
  from requirements_returned_unchanged[where get_model_answer = "replies fenced_duplicates"
      and pairs = "[(ustr ''requirements'', ?deps)]" and deps = ?deps
      and entries = "[''numpy==1.0'', ''numpy==2.0'']", OF a b c] j k p r
  show ?thesis by simp
qed

text \<open>
  C4, as stated, fails: the fenced reply that lists \<open>numpy==1.0\<close> and \<open>numpy==2.0\<close> parses,
  and both entries are returned although they have the same dependency name.
\<close>

theorem requirements_counterexample:
  "generate_project_requirements (replies fenced_duplicates)
     (example_state ''/home/user'' (Some build_tree)) (example_self ''/home/user/proj'') =
     Inr ([], JArray [JString (ustr ''numpy==1.0''), JString (ustr ''numpy==2.0'')])
   \<and> dependency_name (ustr ''numpy==1.0'') = dependency_name (ustr ''numpy==2.0'')"
  by code_simp

text \<open>
  C10, as the code has it. The dot-segment test reads the file path as it was built
  from \<open>project_dir\<close> as passed (not made absolute, and not the relative path). When a
  segment of \<open>project_dir\<close> as passed starts with a dot (\<open>.\<close> and \<open>..\<close> included), every
  path that the two walks build in an existing project directory is ignored, so the
  structural listing and the relevant-file list are both empty, whatever the tree
  holds.
\<close>

theorem dot_in_project_dir_ignores_all:
  assumes "dot_segment (project_dir self)"
    and "project_node st = Some (Dir entries)"
    and "valid_entries entries"
    and "load_ignore_files st self = Inr pats"
  shows "generate_project_structure st self (project_dir self) (project_root st self) 0 None
           = Inr []
       \<and> find_all_scripts_and_config_files st self = Inr []
       \<and> (\<forall>(root, dirs, files) \<in> set (os_walk (project_dir self) (project_root st self)).
            \<forall>name \<in> set dirs \<union> fst ` set files.
              \<forall>any_pats. is_ignored st self (join root name) any_pats = Inr True)"
proof -
  from assms(1) have "project_dir self \<noteq> []" using dot_segment_Nil by auto
  with assms(2) have root: "project_root st self = Some (Dir entries)"
    by (simp add: project_root_def)
  have names: "\<forall>(item, nd) \<in> set (sort_key fst entries). valid_name item"
    using assms(3) valid_entries_names by auto
  have "structure_dir st self (project_dir self) (Dir entries) 0 pats = Inr []"
    using structure_items_all_ignored[OF assms(1) names] by simp
  then have s: "generate_project_structure st self (project_dir self) (project_root st self) 0 None
           = Inr []"
    using root assms(4) by (simp add: generate_project_structure_def)
  have w: "dot_segment root \<and> (\<forall>name \<in> set dirs \<union> fst ` set files. valid_name name)"
    if "(root, dirs, files) \<in> set (walk (project_dir self) (Dir entries))"
    for root dirs files
    using walk_roots_dot(1)[OF assms(1) _ that] assms(3) by simp
  then have "scripts_in_walk st self pats (walk (project_dir self) (Dir entries)) = Inr []"
    by (intro scripts_in_walk_all_ignored) blast
  then have f: "find_all_scripts_and_config_files st self = Inr []"
    using root assms(4)
    by (simp add: find_all_scripts_and_config_files_def find_scripts_with_text_def os_walk_def)
  have i: "is_ignored st self (join root name) any_pats = Inr True"
    if "(root, dirs, files) \<in> set (walk (project_dir self) (Dir entries))"
      "name \<in> set dirs \<union> fst ` set files" for root dirs files name any_pats
  proof -
    from w[OF that(1)] that(2) have "dot_segment root" "valid_name name" by auto
    then show ?thesis
      using dot_segment_join is_ignored_dot valid_name_not_abs by blast
  qed
  have ow: "os_walk (project_dir self) (project_root st self)
              = walk (project_dir self) (Dir entries)"
    using root by (simp add: os_walk_def)
  show ?thesis
    unfolding ow using s f i by blast
qed

theorem dot_in_project_dir_ignores_all_witness:
  "dot_segment ''/home/user/.local/proj''
   \<and> generate_project_structure (example_state ''/home/user'' (Some script_tree))
        (example_self ''/home/user/.local/proj'') ''/home/user/.local/proj''
        (Some script_tree) 0 None = Inr []
   \<and> find_all_scripts_and_config_files (example_state ''/home/user'' (Some script_tree))
        (example_self ''/home/user/.local/proj'') = Inr []
   \<and> dot_segment ''.''
   \<and> generate_project_structure (example_state ''/home/user/proj'' (Some script_tree))
        (example_self ''.'') ''.'' (Some script_tree) 0 None = Inr []
   \<and> find_all_scripts_and_config_files (example_state ''/home/user/proj'' (Some script_tree))
        (example_self ''.'') = Inr []"
proof -
  let ?st = "example_state ''/home/user'' (Some script_tree)"
  let ?self = "example_self ''/home/user/.local/proj''"
  let ?st2 = "example_state ''/home/user/proj'' (Some script_tree)"
  let ?self2 = "example_self ''.''"
  let ?entries = "[(''main.py'', File ''print(1)''),
                   (''pkg'', Dir [(''util.py'', File ''import os'')])]"
  have d: "dot_segment ''/home/user/.local/proj''" "dot_segment ''.''" by code_simp+
  have a: "dot_segment (project_dir ?self)" "dot_segment (project_dir ?self2)"
    unfolding example_self_simps by (rule d)+
  have b: "project_node ?st = Some (Dir ?entries)" "project_node ?st2 = Some (Dir ?entries)"
    by (simp_all add: example_state_simps script_tree_def)
  have c: "valid_entries ?entries" by code_simp
  have e: "load_ignore_files ?st ?self = Inr []" "load_ignore_files ?st2 ?self2 = Inr []"
    by code_simp+
  have r: "project_root ?st ?self = Some script_tree" "project_root ?st2 ?self2 = Some script_tree"
    by (simp_all add: project_root_def example_state_simps example_self_simps)
  from dot_in_project_dir_ignores_all[OF a(1) b(1) c e(1)]
    dot_in_project_dir_ignores_all[OF a(2) b(2) c e(2)] d
  show ?thesis
    unfolding r example_self_simps by blast
qed

text \<open>
  C10, as stated, fails: with the relative \<open>project_dir\<close> \<open>proj\<close> and the working directory
  \<open>/home/.config\<close>, the absolute path of the project directory has the segment
  \<open>.config\<close>, yet \<open>proj/main.py\<close> is not ignored and neither result is empty.
\<close>

theorem dot_in_project_dir_counterexample:
  "dot_segment (abspath ''/home/.config'' ''proj'')
   \<and> is_ignored (example_state ''/home/.config'' (Some script_tree)) (example_self ''proj'')
        ''proj/main.py'' [] = Inr False
   \<and> generate_project_structure (example_state ''/home/.config'' (Some script_tree))
        (example_self ''proj'') ''proj'' (Some script_tree) 0 None
       = Inr [''- main.py'', ''- **pkg/**'', ''  - util.py'']
   \<and> find_all_scripts_and_config_files (example_state ''/home/.config'' (Some script_tree))
        (example_self ''proj'') = Inr [''proj/main.py'', ''proj/pkg/util.py'']"
  by code_simp

text \<open>
  C6, as the code has it. The working directory is absolute, the project directory is
  not the empty path and has no segment that starts with a dot; it holds the entries
  \<open>.git\<close> (with \<open>config\<close>), \<open>src\<close> (with \<open>main.py\<close> and \<open>README\<close>) and \<open>config\<close> (with
  \<open>settings.json\<close>), in any order of listing, and no ignore file or an empty one. Then
  \<open>find_all_scripts_and_config_files\<close> returns exactly the paths of \<open>config/settings.json\<close>
  and \<open>src/main.py\<close> below the project directory, in the order in which the listing of
  the project directory gives \<open>config\<close> and \<open>src\<close>: \<open>os.walk\<close> does not sort.
\<close>

theorem scenario_relevant_files:
  assumes cwd: "isabs (getcwd st)"
    and pd: "project_dir self \<noteq> []" "\<not> dot_segment (project_dir self)"
    and tree: "project_node st = Some (Dir tops)"
    and tops: "set tops = {(''.git'', Dir [(''config'', File git_text)]),
                           (''src'', Dir srcs),
                           (''config'', Dir [(''settings.json'', File settings_text)])}
             \<or> set tops = {(''.gitignore'', File []),
                           (''.git'', Dir [(''config'', File git_text)]),
                           (''src'', Dir srcs),
                           (''config'', Dir [(''settings.json'', File settings_text)])}"
    and dtops: "distinct (map fst tops)"
    and srcs: "set srcs = {(''main.py'', File main_text), (''README'', File readme_text)}"
      "distinct (map fst srcs)"
  shows "find_all_scripts_and_config_files st self =
           Inr (concat (map (scenario_paths (project_dir self)) (map fst tops)))"
proof -
  let ?pd = "project_dir self"
  let ?g = "\<lambda>name. if name = ''config''
                     then [(join (join ?pd ''config'') ''settings.json'', settings_text)]
                   else if name = ''src''
                     then [(join (join ?pd ''src'') ''main.py'', main_text)]
                   else []"
  have root: "project_root st self = Some (Dir tops)"
    using pd(1) tree by (simp add: project_root_def)
  have mem: "e \<in> set tops \<Longrightarrow>
       e = (''.gitignore'', File []) \<or> e = (''.git'', Dir [(''config'', File git_text)])
       \<or> e = (''src'', Dir srcs)
       \<or> e = (''config'', Dir [(''settings.json'', File settings_text)])" for e
    using tops by auto
  have ign: "load_ignore_files st self = Inr []"
  proof (cases "(''.gitignore'', File []) \<in> set tops")
    case True
    then have "map_of tops ''.gitignore'' = Some (File [])"
      using dtops by simp
    then show ?thesis using root by (simp add: load_ignore_files_def load_ignore_text_def)
  next
    case False
    then have "''.gitignore'' \<notin> fst ` set tops"
      using mem by fastforce
    then have "map_of tops ''.gitignore'' = None"
      by (simp add: map_of_eq_None_iff)
    then show ?thesis using root by (simp add: load_ignore_files_def)
  qed
  have ig: "is_ignored st self (join (join ?pd d) f) [] = Inr False"
    if "valid_name d" "valid_name f" "\<not> startswith d ''.''" "\<not> startswith f ''.''"
      "\<not> contains (d @ ''/'' @ f) ''__pycache__''" for d f
    using is_ignored_below[OF cwd pd, of "[d, f]"] that by simp
  have ig_settings: "is_ignored st self (join (join ?pd ''config'') ''settings.json'') []
      = Inr False"
    by (rule ig) (simp_all add: valid_name_def startswith_def)
  have ig_main: "is_ignored st self (join (join ?pd ''src'') ''main.py'') [] = Inr False"
    by (rule ig) (simp_all add: valid_name_def startswith_def)
  have ig_readme: "is_ignored st self (join (join ?pd ''src'') ''README'') [] = Inr False"
    by (rule ig) (simp_all add: valid_name_def startswith_def)
  have src_files: "scripts_in_files st self [] (join ?pd ''src'')
        (concat (map (\<lambda>(name, nd). case nd of Dir es \<Rightarrow> [] | File c \<Rightarrow> [(name, c)]) srcs))
      = Inr [(join (join ?pd ''src'') ''main.py'', main_text)]"
  proof -
    have "distinct srcs" using srcs(2) by (simp add: distinct_map)
    then have "srcs = [(''main.py'', File main_text), (''README'', File readme_text)]
        \<or> srcs = [(''README'', File readme_text), (''main.py'', File main_text)]"
      using two_elems[OF srcs(1)] by simp
    then show ?thesis
      using ig_main ig_readme by (auto simp: endswith_def)
  qed
  have entry: "scripts_in_walk st self [] (walk (join ?pd name) nd) = Inr (?g name)"
    if "(name, nd) \<in> set tops" for name nd
  proof -
    from mem[OF that] consider
      (gitignore) "name = ''.gitignore''" "nd = File []"
      | (git) "name = ''.git''" "nd = Dir [(''config'', File git_text)]"
      | (src) "name = ''src''" "nd = Dir srcs"
      | (config) "name = ''config''" "nd = Dir [(''settings.json'', File settings_text)]"
      by auto
    then show ?thesis
    proof cases
      case gitignore
      then show ?thesis by simp
    next
      case git
      have "scripts_in_files st self [] (join ?pd ''.git'') [(''config'', git_text)] = Inr []"
        by (rule scripts_in_files_irrelevant[OF join_nonempty[OF pd(1)]])
           (simp add: endswith_def)
      with git show ?thesis by simp
    next
      case src
      have "walk_dirs (join ?pd ''src'') srcs = []"
      proof -
        have "distinct srcs" using srcs(2) by (simp add: distinct_map)
        then have "srcs = [(''main.py'', File main_text), (''README'', File readme_text)]
            \<or> srcs = [(''README'', File readme_text), (''main.py'', File main_text)]"
          using two_elems[OF srcs(1)] by simp
        then show ?thesis by auto
      qed
      with src src_files show ?thesis by simp
    next
      case config
      have "scripts_in_files st self [] (join ?pd ''config'') [(''settings.json'', settings_text)]
          = Inr [(join (join ?pd ''config'') ''settings.json'', settings_text)]"
        using ig_settings contains_lower_config[of ?pd] by (simp add: endswith_def)
      with config show ?thesis by simp
    qed
  qed
  have below: "scripts_in_walk st self [] (walk_dirs ?pd tops)
      = Inr (concat (map ?g (map fst tops)))"
    by (rule scripts_in_walk_dirs) (use entry in blast)
  have top_files: "scripts_in_files st self [] ?pd
        (concat (map (\<lambda>(name, nd). case nd of Dir es \<Rightarrow> [] | File c \<Rightarrow> [(name, c)]) tops))
      = Inr []"
  proof (rule scripts_in_files_irrelevant[OF pd(1)])
    show "\<forall>(f, c) \<in> set (concat (map (\<lambda>(name, nd). case nd of Dir es \<Rightarrow> []
              | File c \<Rightarrow> [(name, c)]) tops)).
            \<not> (endswith f ''.py'' \<or> endswith f ''.sh'' \<or> endswith f ''.bash''
               \<or> endswith f ''.json'')"
    proof clarify
      fix f c
      assume "(f, c) \<in> set (concat (map (\<lambda>(name, nd). case nd of Dir es \<Rightarrow> []
              | File c \<Rightarrow> [(name, c)]) tops))"
        and ext: "endswith f ''.py'' \<or> endswith f ''.sh'' \<or> endswith f ''.bash''
               \<or> endswith f ''.json''"
      then have "(f, File c) \<in> set tops" by (auto split: node.splits)
      then have "f = ''.gitignore''" using mem by blast
      with ext show False by (simp add: endswith_def)
    qed
  qed
  have "scripts_in_walk st self [] (walk ?pd (Dir tops))
      = Inr (concat (map ?g (map fst tops)))"
    using top_files below by simp
  then have res: "find_all_scripts_and_config_files st self
      = Inr (map fst (concat (map ?g (map fst tops))))"
    using root ign
    by (simp add: find_all_scripts_and_config_files_def find_scripts_with_text_def os_walk_def)
  have fin: "map fst (concat (map ?g names)) = concat (map (scenario_paths ?pd) names)"
    for names
    by (induction names) (auto simp: scenario_paths_def)
  from res show ?thesis unfolding fin .
qed

theorem scenario_relevant_files_witness:
  "find_all_scripts_and_config_files
     (example_state ''/home/user'' (Some (Dir [scenario_git, scenario_config, scenario_src])))
     (example_self ''/home/user/proj'')
     = Inr [''/home/user/proj/config/settings.json'', ''/home/user/proj/src/main.py'']
   \<and> find_all_scripts_and_config_files
     (example_state ''/home/user''
        (Some (Dir [scenario_src, (''.gitignore'', File []), scenario_config, scenario_git])))
     (example_self ''/home/user/proj'')
     = Inr [''/home/user/proj/src/main.py'', ''/home/user/proj/config/settings.json'']"
proof -
  let ?self = "example_self ''/home/user/proj''"
  let ?tops1 = "[scenario_git, scenario_config, scenario_src]"
  let ?tops2 = "[scenario_src, (''.gitignore'', File []), scenario_config, scenario_git]"
  let ?st1 = "example_state ''/home/user'' (Some (Dir ?tops1))"
  let ?st2 = "example_state ''/home/user'' (Some (Dir ?tops2))"
  let ?srcs = "[(''main.py'', File ''import os''), (''README'', File ''notes'')]"
  have cwd: "isabs (getcwd ?st1)" "isabs (getcwd ?st2)"
    by (simp_all add: example_state_simps isabs_def startswith_def)
  have pd: "project_dir ?self \<noteq> []" "\<not> dot_segment (project_dir ?self)"
    unfolding example_self_simps by code_simp+
  have tree: "project_node ?st1 = Some (Dir ?tops1)" "project_node ?st2 = Some (Dir ?tops2)"
    by (simp_all add: example_state_simps)
  have tops1: "set ?tops1 = {(''.git'', Dir [(''config'', File ''[core]'')]),
                           (''src'', Dir ?srcs),
                           (''config'', Dir [(''settings.json'', File ''{}'')])}
             \<or> set ?tops1 = {(''.gitignore'', File []),
                           (''.git'', Dir [(''config'', File ''[core]'')]),
                           (''src'', Dir ?srcs),
                           (''config'', Dir [(''settings.json'', File ''{}'')])}"
    by (auto simp: scenario_git_def scenario_src_def scenario_config_def)
  have tops2: "set ?tops2 = {(''.git'', Dir [(''config'', File ''[core]'')]),
                           (''src'', Dir ?srcs),
                           (''config'', Dir [(''settings.json'', File ''{}'')])}
             \<or> set ?tops2 = {(''.gitignore'', File []),
                           (''.git'', Dir [(''config'', File ''[core]'')]),
                           (''src'', Dir ?srcs),
                           (''config'', Dir [(''settings.json'', File ''{}'')])}"
    by (auto simp: scenario_git_def scenario_src_def scenario_config_def)
  have d: "distinct (map fst ?tops1)" "distinct (map fst ?tops2)"
    by (simp_all add: scenario_git_def scenario_src_def scenario_config_def)
  have srcs: "set ?srcs = {(''main.py'', File ''import os''), (''README'', File ''notes'')}"
    "distinct (map fst ?srcs)"
    by simp_all
  have v1: "concat (map (scenario_paths (project_dir ?self)) (map fst ?tops1))
      = [''/home/user/proj/config/settings.json'', ''/home/user/proj/src/main.py'']"
    unfolding example_self_simps by code_simp
  have v2: "concat (map (scenario_paths (project_dir ?self)) (map fst ?tops2))
      = [''/home/user/proj/src/main.py'', ''/home/user/proj/config/settings.json'']"
    unfolding example_self_simps by code_simp
  from scenario_relevant_files[OF cwd(1) pd tree(1) tops1 d(1) srcs]
    scenario_relevant_files[OF cwd(2) pd tree(2) tops2 d(2) srcs]
  show ?thesis unfolding v1 v2 by simp
qed

text \<open>
  C6, as stated, fails: when the listing of the project directory gives \<open>src\<close> before
  \<open>config\<close>, the result has \<open>src/main.py\<close> first.
\<close>

theorem scenario_relevant_files_counterexample:
  "find_all_scripts_and_config_files
     (example_state ''/home/user'' (Some (Dir [scenario_git, scenario_src, scenario_config])))
     (example_self ''/home/user/proj'')
     = Inr [''/home/user/proj/src/main.py'', ''/home/user/proj/config/settings.json'']"
  by code_simp

end
